theory Spec2Isabelle
  imports Main "HOL-Library.AList" "HOL-Library.Multiset"
begin

section \<open>Field validation of the patient form\<close>

text \<open>
  The form (frontend/src/app/add-patient/page.tsx) reports the outcome of a field check
  as a \<open>FieldValidation\<close> object: a flag \<open>isValid\<close>, a message for the user and a
  type that is one of 'error', 'warning' and 'success'. The messages are fixed texts in
  Thai; the model names each of them by a constructor, in the order of the source.
\<close>

datatype validation_type = Error | Warning | Success

datatype validation_message =
    NoMessage
  | HnMissing | HnBadPattern | HnOk
  | PhoneTooShort | PhoneTooLong | PhoneMobileOk | PhoneLandlineOk | PhoneBadPattern
  | AgeMissing | AgeNotPositive | AgeTooLarge | AgeCheckPlease | AgeOk

record FieldValidation =
  isValid :: bool
  message :: validation_message
  vtype :: validation_type

subsection \<open>validateAge\<close>

text \<open>
  \<^verbatim>\<open>
  const validateAge = (age: number): FieldValidation => {
    if (!age || age === 0) return { isValid: false, ..., type: 'error' };
    if (age < 0)   return { isValid: false, ..., type: 'error' };
    if (age > 150) return { isValid: false, ..., type: 'error' };
    if (age > 100) return { isValid: true,  ..., type: 'warning' };
    return { isValid: true, ..., type: 'success' };
  };
  \<close>
  The age is an integer here (the form stores \<open>parseInt(value) || 0\<close>), for which
  \<open>!age\<close> holds exactly at 0.
\<close>

definition validateAge :: "int \<Rightarrow> FieldValidation" where
  "validateAge age =
     (if age = 0 \<or> age = 0 then \<lparr>isValid = False, message = AgeMissing, vtype = Error\<rparr>
      else if age < 0 then \<lparr>isValid = False, message = AgeNotPositive, vtype = Error\<rparr>
      else if age > 150 then \<lparr>isValid = False, message = AgeTooLarge, vtype = Error\<rparr>
      else if age > 100 then \<lparr>isValid = True, message = AgeCheckPlease, vtype = Warning\<rparr>
      else \<lparr>isValid = True, message = AgeOk, vtype = Success\<rparr>)"

section \<open>Text helpers\<close>

text \<open>
  A text that has passed one of the filters of the form (only digits, or only \<open>H\<close>, \<open>N\<close>
  and digits) is a \<open>string\<close>, one \<open>char\<close> for each character. A text as it is typed
  is any JavaScript string and is modelled below by its code points.
\<close>

definition isDigit :: "char \<Rightarrow> bool" where
  \<comment> \<open>the class \<open>\d\<close> of a regular expression\<close>
  "isDigit c = (c \<in> set ''0123456789'')"

definition startsWith :: "string \<Rightarrow> string \<Rightarrow> bool" where
  "startsWith s p = (take (length p) s = p)"

definition padStart :: "nat \<Rightarrow> char \<Rightarrow> string \<Rightarrow> string" where
  \<comment> \<open>\<open>s.padStart(n, c)\<close> with a pad text of one character\<close>
  "padStart n c s = replicate (n - length s) c @ s"

definition slice :: "nat \<Rightarrow> nat \<Rightarrow> string \<Rightarrow> string" where
  \<comment> \<open>\<open>s.slice(a, b)\<close> for indices that are not negative\<close>
  "slice a b s = take (b - a) (drop a s)"

subsection \<open>Typed texts and toUpperCase\<close>

text \<open>
  A typed text is a JavaScript string, taken as the list of its Unicode code points
  (\<open>StringToCodePoints\<close>, a lone surrogate being a code point of its own); its length
  as JavaScript and the attribute \<open>maxLength\<close> count it is the number of UTF-16 code
  units, two for a code point from 65536 on.

  \<open>String.prototype.toUpperCase\<close> replaces every code point by its upper-case mapping
  in the Unicode character database, which may be several code points (U+0149 becomes
  U+02BC followed by \<open>N\<close>, U+1E96 becomes \<open>H\<close> followed by U+0331). On ASCII the mapping
  is fixed: the letters \<open>a\<close> to \<open>z\<close> become \<open>A\<close> to \<open>Z\<close> and nothing else changes. The
  mappings of the other code points are a table of the JavaScript engine that is not part
  of the repository; it is the parameter \<open>table\<close>, and the theorems hold for every table.
\<close>

type_synonym jstext = "nat list"

definition utf16Length :: "jstext \<Rightarrow> nat" where
  "utf16Length s = sum_list (map (\<lambda>c. if c < 65536 then 1 else 2) s)"

definition upperCodePoint :: "(nat \<Rightarrow> nat list) \<Rightarrow> nat \<Rightarrow> nat list" where
  "upperCodePoint table c =
     (if c < 128 then (if 97 \<le> c \<and> c \<le> 122 then [c - 32] else [c]) else table c)"

definition toUpperCase :: "(nat \<Rightarrow> nat list) \<Rightarrow> jstext \<Rightarrow> jstext" where
  "toUpperCase table s = concat (map (upperCodePoint table) s)"

subsection \<open>validateHN, formatHN, addLeadingZeros\<close>

text \<open>
  \<^verbatim>\<open>
  const validateHN = (hn: string): FieldValidation => {
    if (!hn) return { isValid: false, ..., type: 'error' };
    const hnPattern = /^HN\d{6}$/;
    if (!hnPattern.test(hn)) return { isValid: false, ..., type: 'error' };
    return { isValid: true, ..., type: 'success' };
  };
  \<close>
\<close>

definition hnPattern :: "string \<Rightarrow> bool" where
  "hnPattern hn = (length hn = 8 \<and> take 2 hn = ''HN'' \<and> list_all isDigit (drop 2 hn))"

definition validateHN :: "string \<Rightarrow> FieldValidation" where
  "validateHN hn =
     (if hn = [] then \<lparr>isValid = False, message = HnMissing, vtype = Error\<rparr>
      else if \<not> hnPattern hn then \<lparr>isValid = False, message = HnBadPattern, vtype = Error\<rparr>
      else \<lparr>isValid = True, message = HnOk, vtype = Success\<rparr>)"

text \<open>
  \<^verbatim>\<open>
  const formatHN = (input: string): string => {
    // Remove all non-digit characters except HN prefix
    let cleaned = input.toUpperCase().replace(/[^HN0-9]/g, '');
    // If user types numbers first, add HN prefix
    if (cleaned && /^\d/.test(cleaned)) cleaned = 'HN' + cleaned;
    // Handle HN prefix
    if (cleaned.startsWith('HN')) {
      const numberPart = cleaned.substring(2);
      // Limit to 6 digits
      if (numberPart.length > 6) return 'HN' + numberPart.substring(0, 6);
      return 'HN' + numberPart;
    }
    return cleaned;
  };
  \<close>
\<close>

definition stripNonHN :: "jstext \<Rightarrow> string" where
  \<comment> \<open>\<open>s.replace(/[^HN0-9]/g, '')\<close>: what stays is \<open>H\<close> (72), \<open>N\<close> (78) and the digits
      (48 to 57), from here on a \<open>string\<close>\<close>
  "stripNonHN s = map char_of (filter (\<lambda>c. c = 72 \<or> c = 78 \<or> (48 \<le> c \<and> c \<le> 57)) s)"

definition formatHN :: "(nat \<Rightarrow> nat list) \<Rightarrow> jstext \<Rightarrow> string" where
  "formatHN table input =
     (let cleaned0 = stripNonHN (toUpperCase table input);
          cleaned = (if cleaned0 \<noteq> [] \<and> isDigit (hd cleaned0) then ''HN'' @ cleaned0
                     else cleaned0)
      in if startsWith cleaned ''HN'' then
           (let numberPart = drop 2 cleaned
            in if length numberPart > 6 then ''HN'' @ take 6 numberPart
               else ''HN'' @ numberPart)
         else cleaned)"

text \<open>
  \<^verbatim>\<open>
  const addLeadingZeros = (hn: string): string => {
    if (!hn || !hn.startsWith('HN')) return hn;
    const numberPart = hn.substring(2);
    if (numberPart.length > 0 && numberPart.length < 6)
      return 'HN' + numberPart.padStart(6, '0');
    return hn;
  };
  \<close>
\<close>

definition addLeadingZeros :: "string \<Rightarrow> string" where
  "addLeadingZeros hn =
     (if hn = [] \<or> \<not> startsWith hn ''HN'' then hn
      else (let numberPart = drop 2 hn
            in if length numberPart > 0 \<and> length numberPart < 6
               then ''HN'' @ padStart 6 (CHR ''0'') numberPart
               else hn))"

subsection \<open>The field hn of the form\<close>

text \<open>
  The form keeps the hospital number in \<open>formData.hn\<close>. Three handlers touch it.
  \<^verbatim>\<open>
  // handleInputChange, name === 'hn'
  const formattedHN = formatHN(value);
  setFormData(prev => ({ ...prev, hn: formattedHN }));

  // handleFieldBlur, fieldName === 'hn'
  if (formData.hn) {
    const paddedHN = addLeadingZeros(formData.hn);
    if (paddedHN !== formData.hn) setFormData(prev => ({ ...prev, hn: paddedHN }));
  }

  // handleSubmit
  const validationResults = { hn: validateHN(formData.hn), ... };
  const hasErrors = Object.values(validationResults).some(result => !result.isValid);
  if (hasErrors) { ...; return; }
  \<close>
  Each function gives the value of \<open>formData.hn\<close> after the handler; \<open>handleSubmit_hn\<close>
  gives the hospital number that is sent, or \<open>None\<close> when the check of this field stops
  the submission.
\<close>

definition handleInputChange_hn :: "(nat \<Rightarrow> nat list) \<Rightarrow> jstext \<Rightarrow> string" where
  "handleInputChange_hn table v = formatHN table v"

definition handleFieldBlur_hn :: "string \<Rightarrow> string" where
  "handleFieldBlur_hn hn =
     (if hn \<noteq> [] then
        (let paddedHN = addLeadingZeros hn in if paddedHN \<noteq> hn then paddedHN else hn)
      else hn)"

definition handleSubmit_hn :: "string \<Rightarrow> string option" where
  "handleSubmit_hn hn = (if isValid (validateHN hn) then Some hn else None)"

text \<open>
  \<^verbatim>\<open>
  <input type="text" name="hn" value={formData.hn} onChange={handleInputChange}
         onBlur={() => handleFieldBlur('hn')} ... maxLength={6} />
  \<close>
  The input element lets the user enter at most 6 UTF-16 code units: \<open>fieldAdmits\<close>.
  The handlers themselves take any text.

  \<open>parseHN table blurred raw\<close> is what the form does with the text \<open>raw\<close> in the field:
  the change, then the blur when \<open>blurred\<close> says that the field has lost the focus
  before the submission, then the submission. The result is the hospital number sent, or
  \<open>None\<close> when the form refuses.
\<close>

definition hnMaxLength :: nat where
  "hnMaxLength = 6"

definition fieldAdmits :: "jstext \<Rightarrow> bool" where
  "fieldAdmits raw = (utf16Length raw \<le> hnMaxLength)"

definition parseHN :: "(nat \<Rightarrow> nat list) \<Rightarrow> bool \<Rightarrow> jstext \<Rightarrow> string option" where
  "parseHN table blurred raw =
     (let typed = handleInputChange_hn table raw;
          hn = (if blurred then handleFieldBlur_hn typed else typed)
      in handleSubmit_hn hn)"

subsection \<open>validatePhone, formatPhoneNumber\<close>

text \<open>
  \<^verbatim>\<open>
  const validatePhone = (phone: string): FieldValidation => {
    if (!phone) return { isValid: true, message: '', type: 'warning' };
    const cleanPhone = phone.replace(/\D/g, '');
    if (cleanPhone.length < 9)  return { isValid: false, ..., type: 'error' };
    if (cleanPhone.length > 12) return { isValid: false, ..., type: 'error' };
    if (cleanPhone.length === 10 && (cleanPhone.startsWith('06') ||
        cleanPhone.startsWith('08') || cleanPhone.startsWith('09')))
      return { isValid: true, ..., type: 'success' };
    if (cleanPhone.length === 9 && cleanPhone.startsWith('0'))
      return { isValid: true, ..., type: 'success' };
    return { isValid: false, ..., type: 'error' };
  };
  \<close>
\<close>

definition validatePhone :: "string \<Rightarrow> FieldValidation" where
  "validatePhone phone =
     (if phone = [] then \<lparr>isValid = True, message = NoMessage, vtype = Warning\<rparr>
      else (let cleanPhone = filter isDigit phone
            in if length cleanPhone < 9
               then \<lparr>isValid = False, message = PhoneTooShort, vtype = Error\<rparr>
               else if length cleanPhone > 12
               then \<lparr>isValid = False, message = PhoneTooLong, vtype = Error\<rparr>
               else if length cleanPhone = 10 \<and>
                       (startsWith cleanPhone ''06'' \<or> startsWith cleanPhone ''08'' \<or>
                        startsWith cleanPhone ''09'')
               then \<lparr>isValid = True, message = PhoneMobileOk, vtype = Success\<rparr>
               else if length cleanPhone = 9 \<and> startsWith cleanPhone ''0''
               then \<lparr>isValid = True, message = PhoneLandlineOk, vtype = Success\<rparr>
               else \<lparr>isValid = False, message = PhoneBadPattern, vtype = Error\<rparr>))"

text \<open>
  \<^verbatim>\<open>
  const formatPhoneNumber = (phone: string): string => {
    const cleaned = phone.replace(/\D/g, '');
    if (cleaned.length <= 3) return cleaned;
    if (cleaned.length <= 6) return `${cleaned.slice(0, 3)}-${cleaned.slice(3)}`;
    if (cleaned.length <= 10)
      return `${cleaned.slice(0, 3)}-${cleaned.slice(3, 6)}-${cleaned.slice(6)}`;
    return `${cleaned.slice(0, 3)}-${cleaned.slice(3, 6)}-${cleaned.slice(6, 10)}`;
  };
  \<close>
\<close>

definition formatPhoneNumber :: "string \<Rightarrow> string" where
  "formatPhoneNumber phone =
     (let cleaned = filter isDigit phone
      in if length cleaned \<le> 3 then cleaned
         else if length cleaned \<le> 6 then slice 0 3 cleaned @ ''-'' @ drop 3 cleaned
         else if length cleaned \<le> 10
         then slice 0 3 cleaned @ ''-'' @ slice 3 6 cleaned @ ''-'' @ drop 6 cleaned
         else slice 0 3 cleaned @ ''-'' @ slice 3 6 cleaned @ ''-'' @ slice 6 10 cleaned)"

subsection \<open>The parsing of a hospital number, in the words of its description\<close>

text \<open>
  \<open>parseHN_spec\<close> follows the description of \<open>parse\<close>: strip the characters outside
  \<open>[A-Z0-9]\<close>, require \<open>HN\<close> and 1 to 6 digits, pad the digits to 6 with zeros on the
  left, and reject everything else.
\<close>

definition parseHN_spec :: "jstext \<Rightarrow> string option" where
  "parseHN_spec raw =
     (let s = map char_of
                (filter (\<lambda>c. (65 \<le> c \<and> c \<le> 90) \<or> (48 \<le> c \<and> c \<le> 57)) raw);
          digits = drop 2 s
      in if startsWith s ''HN'' \<and> 1 \<le> length digits \<and> length digits \<le> 6 \<and>
            list_all isDigit digits
         then Some (''HN'' @ padStart 6 (CHR ''0'') digits)
         else None)"

text \<open>
  \<open>parseHN_direct\<close> states in one piece what the functions of the form do together:
  the text is put in upper case and everything but \<open>H\<close>, \<open>N\<close> and the digits is
  removed; a text that starts with a digit is taken as the number itself, a text that
  starts with \<open>HN\<close> has the number after that prefix, any other text is refused; of the
  number only the first 6 characters count; they must be digits: six of them, or, when
  the field has lost the focus, at least one, padded with zeros on the left.
\<close>

definition parseHN_direct :: "(nat \<Rightarrow> nat list) \<Rightarrow> bool \<Rightarrow> jstext \<Rightarrow> string option" where
  "parseHN_direct table blurred raw =
     (let c = stripNonHN (toUpperCase table raw);
          body = (if c \<noteq> [] \<and> isDigit (hd c) then Some c
                  else if startsWith c ''HN'' then Some (drop 2 c)
                  else None)
      in case body of
           None \<Rightarrow> None
         | Some b \<Rightarrow>
             (let t = take 6 b
              in if list_all isDigit t \<and> (length t = 6 \<or> (blurred \<and> t \<noteq> []))
                 then Some (''HN'' @ replicate (6 - length t) (CHR ''0'') @ t)
                 else None))"

section \<open>The patient store\<close>

text \<open>
  backend/internal/database: the record \<open>Patient\<close> and the in-memory repository
  \<open>MockPatientRepository\<close> of mock.go. A Go \<open>string\<close> is a sequence of bytes, as a
  \<open>string\<close> is here; a \<open>*string\<close> that may be nil is an option. A \<open>time.Time\<close> is
  modelled by the reading of the monotonic clock that \<open>time.Now()\<close> attaches to it and
  that \<open>After\<close> compares; the zero time is 0. The parameter \<open>id\<close> of the methods is
  written \<open>i\<close>; it is a Go \<open>int\<close> of 64 bits, every value of which is an \<open>int\<close> here.
\<close>

type_synonym time = nat

record Patient =
  HN :: string
  FullName :: string
  Gender :: string
  Nickname :: "string option"
  Phone :: "string option"
  Age :: int
  DateOfBirth :: "string option"
  Photo :: "string option"
  CreatedAt :: time
  UpdatedAt :: time

text \<open>
  The field \<open>patients\<close> is a Go map from the hospital number to (a pointer to) the
  record. It is kept as an association list, so that \<open>GetAll\<close> can run over its
  entries; \<open>map_of\<close> reads it, \<open>AList.update\<close> assigns to a key and \<open>AList.delete\<close>
  removes one. The pointers are private to the repository: \<open>Create\<close> stores a copy and
  \<open>GetByID\<close> returns a copy. The copies are shallow, so an optional text stays shared
  with the caller through its \<open>*string\<close>; no method assigns through such a pointer, and
  the model takes the optional texts as values. The lock \<open>mutex\<close> is held during every
  method; the model runs one method at a time.
\<close>

record MockPatientRepository =
  patients :: "(string \<times> Patient) list"

datatype error =
    AlreadyExists string  \<comment> \<open>"patient with HN %s already exists"\<close>
  | NotFound string       \<comment> \<open>"patient with hn %s not found"\<close>

subsection \<open>fmt.Sprintf("HN%06d", id)\<close>

text \<open>
  The verb \<open>%06d\<close> writes the decimal digits of the number and fills with zeros on the
  left up to a width of 6, the sign of a negative number counting for the width. It never
  cuts: a number of 7 digits is written with its 7 digits.
\<close>

definition digitChar :: "nat \<Rightarrow> char" where
  "digitChar d = char_of (48 + d)"

fun decimal :: "nat \<Rightarrow> string" where
  "decimal n = (if n < 10 then [digitChar n] else decimal (n div 10) @ [digitChar (n mod 10)])"

declare decimal.simps [simp del]

definition sprintf_06d :: "int \<Rightarrow> string" where
  "sprintf_06d i =
     (if i < 0 then CHR ''-'' # padStart 5 (CHR ''0'') (decimal (nat (- i)))
      else padStart 6 (CHR ''0'') (decimal (nat i)))"

definition hnString :: "int \<Rightarrow> string" where
  "hnString i = ''HN'' @ sprintf_06d i"

text \<open>
  The handlers \<open>GetPatient\<close> and \<open>DeletePatient\<close> read the id from the path with
  \<open>fmt.Sscanf(hnString, "HN%d", &id)\<close>. On \<open>HN\<close> followed by digits that is the number
  the digits write, \<open>digitsValue\<close> of the text after the prefix.
\<close>

definition digitsValue :: "string \<Rightarrow> nat" where
  "digitsValue ds = foldl (\<lambda>v c. 10 * v + (of_char c - 48)) 0 ds"

definition toSurrogate :: "string \<Rightarrow> int" where
  "toSurrogate hn = int (digitsValue (drop 2 hn))"

subsection \<open>The methods of the repository\<close>

text \<open>
  \<^verbatim>\<open>
  func (r *MockPatientRepository) GetAll() ([]Patient, error) {
      patients := make([]Patient, 0, len(r.patients))
      for _, p := range r.patients { patients = append(patients, *p) }
      // Sort by CreatedAt (newest first)
      sort.Slice(patients, func(i, j int) bool {
          return patients[i].CreatedAt.After(patients[j].CreatedAt) })
      return patients, nil
  }
  \<close>
  The order in which Go runs over a map is not fixed and \<open>sort.Slice\<close> is not stable, so
  the source fixes the result only up to the order of records created at the same time.
  \<open>GetAll_result r ps\<close> says that \<open>ps\<close> is one of the lists the method may return;
  \<open>GetAll\<close> computes one of them.
\<close>

definition GetAll_result :: "MockPatientRepository \<Rightarrow> Patient list \<Rightarrow> bool" where
  "GetAll_result r ps =
     (mset ps = mset (map snd (patients r)) \<and>
      sorted_wrt (\<lambda>a b. \<not> CreatedAt b > CreatedAt a) ps)"

definition GetAll :: "MockPatientRepository \<Rightarrow> Patient list" where
  "GetAll r = rev (sort_key CreatedAt (map snd (patients r)))"

text \<open>
  \<^verbatim>\<open>
  func (r *MockPatientRepository) GetByID(id int) (*Patient, error) {
      hnString := fmt.Sprintf("HN%06d", id)
      patient, exists := r.patients[hnString]
      if !exists { return nil, fmt.Errorf("patient with hn %s not found", hnString) }
      patientCopy := *patient
      return &patientCopy, nil
  }
  \<close>
\<close>

definition GetByID :: "MockPatientRepository \<Rightarrow> int \<Rightarrow> error + Patient" where
  "GetByID r i =
     (let hn = hnString i
      in case map_of (patients r) hn of
           None \<Rightarrow> Inl (NotFound hn)
         | Some patient \<Rightarrow> Inr patient)"

text \<open>
  \<^verbatim>\<open>
  func (r *MockPatientRepository) Create(p *Patient) error {
      if _, exists := r.patients[p.HN]; exists {
          return fmt.Errorf("patient with HN %s already exists", p.HN) }
      p.CreatedAt = time.Now()
      p.UpdatedAt = time.Now()
      patientCopy := *p
      r.patients[p.HN] = &patientCopy
      return nil
  }
  \<close>
  The two readings of the clock are the arguments \<open>now1\<close> and \<open>now2\<close>. The result is the
  error, or the caller's record as the method leaves it, and the repository after the
  call.
\<close>

definition Create ::
  "MockPatientRepository \<Rightarrow> Patient \<Rightarrow> time \<Rightarrow> time \<Rightarrow> (error + Patient) \<times> MockPatientRepository"
where
  "Create r p now1 now2 =
     (case map_of (patients r) (HN p) of
        Some _ \<Rightarrow> (Inl (AlreadyExists (HN p)), r)
      | None \<Rightarrow>
          (let p' = p\<lparr>CreatedAt := now1, UpdatedAt := now2\<rparr>
           in (Inr p', r\<lparr>patients := AList.update (HN p') p' (patients r)\<rparr>)))"

text \<open>
  \<^verbatim>\<open>
  func (r *MockPatientRepository) Update(p *Patient) error {
      existing, exists := r.patients[p.HN]
      if !exists { return fmt.Errorf("patient with HN %s not found", p.HN) }
      existing.FullName = p.FullName
      existing.Gender = p.Gender
      existing.Nickname = p.Nickname
      existing.Phone = p.Phone
      existing.Age = p.Age
      existing.DateOfBirth = p.DateOfBirth
      existing.Photo = p.Photo
      existing.UpdatedAt = time.Now()
      p.CreatedAt = existing.CreatedAt
      p.UpdatedAt = existing.UpdatedAt
      return nil
  }
  \<close>
  \<open>existing\<close> is the pointer held by the map, so the assignments change the stored
  record.
\<close>

definition Update ::
  "MockPatientRepository \<Rightarrow> Patient \<Rightarrow> time \<Rightarrow> (error + Patient) \<times> MockPatientRepository"
where
  "Update r p now =
     (case map_of (patients r) (HN p) of
        None \<Rightarrow> (Inl (NotFound (HN p)), r)
      | Some existing \<Rightarrow>
          (let existing' = existing\<lparr>FullName := FullName p, Gender := Gender p,
                 Nickname := Nickname p, Phone := Phone p, Age := Age p,
                 DateOfBirth := DateOfBirth p, Photo := Photo p, UpdatedAt := now\<rparr>
           in (Inr (p\<lparr>CreatedAt := CreatedAt existing', UpdatedAt := UpdatedAt existing'\<rparr>),
               r\<lparr>patients := AList.update (HN p) existing' (patients r)\<rparr>)))"

text \<open>
  \<^verbatim>\<open>
  func (r *MockPatientRepository) Delete(id int) error {
      hnString := fmt.Sprintf("HN%06d", id)
      if _, exists := r.patients[hnString]; !exists {
          return fmt.Errorf("patient with hn %s not found", hnString) }
      delete(r.patients, hnString)
      return nil
  }
  \<close>
\<close>

definition Delete :: "MockPatientRepository \<Rightarrow> int \<Rightarrow> (error + unit) \<times> MockPatientRepository" where
  "Delete r i =
     (let hn = hnString i
      in case map_of (patients r) hn of
           None \<Rightarrow> (Inl (NotFound hn), r)
         | Some _ \<Rightarrow> (Inr (), r\<lparr>patients := AList.delete hn (patients r)\<rparr>))"

subsection \<open>The clock and sequences of calls\<close>

text \<open>
  The repository reads the time with \<open>time.Now()\<close>. A clock is the function \<open>now\<close>
  that gives the reading of the k-th call of \<open>time.Now()\<close> in the process; a \<open>world\<close>
  is the repository together with the number of readings taken so far. The monotonic
  clock of Go never runs backwards, which is the hypothesis \<open>mono now\<close> of the
  theorems on time stamps.
\<close>

type_synonym world = "MockPatientRepository \<times> nat"

datatype call =
    CallGetAll
  | CallGetByID int
  | CallCreate Patient
  | CallUpdate Patient
  | CallDelete int

fun step :: "(nat \<Rightarrow> time) \<Rightarrow> world \<Rightarrow> call \<Rightarrow> world" where
  "step now (r, k) CallGetAll = (r, k)"
| "step now (r, k) (CallGetByID i) = (r, k)"
| "step now (r, k) (CallCreate p) =
     (case Create r p (now k) (now (k + 1)) of
        (Inl e, r') \<Rightarrow> (r', k)
      | (Inr p', r') \<Rightarrow> (r', k + 2))"
| "step now (r, k) (CallUpdate p) =
     (case Update r p (now k) of
        (Inl e, r') \<Rightarrow> (r', k)
      | (Inr p', r') \<Rightarrow> (r', k + 1))"
| "step now (r, k) (CallDelete i) = (snd (Delete r i), k)"

definition run :: "(nat \<Rightarrow> time) \<Rightarrow> world \<Rightarrow> call list \<Rightarrow> world" where
  "run now w cs = foldl (step now) w cs"

text \<open>
  \<^verbatim>\<open>
  func NewMockPatientRepository() *MockPatientRepository {
      repo := &MockPatientRepository{ patients: make(map[string]*Patient) }
      repo.createSampleData()
      return repo
  }
  func (r *MockPatientRepository) createSampleData() {
      samplePatients := []*Patient{ {HN: "HN000001", ...}, {HN: "HN000002", ...},
                                    {HN: "HN000003", ...} }
      for _, p := range samplePatients { r.Create(p) }
  }
  \<close>
  The names, genders and nicknames of the three sample patients are Thai texts, given
  here by their bytes in UTF-8.
\<close>

definition bytes :: "nat list \<Rightarrow> string" where
  "bytes ns = map char_of ns"

definition samplePatients :: "Patient list" where
  "samplePatients =
     [\<lparr>HN = ''HN000001'',
       FullName = bytes
           [224, 184, 153, 224, 184, 178, 224, 184, 162, 224, 184, 170, 224, 184,
            161, 224, 184, 138, 224, 184, 178, 224, 184, 162, 32, 224, 185, 131,
            224, 184, 136, 224, 184, 148, 224, 184, 181],
       Gender = bytes
           [224, 184, 138, 224, 184, 178, 224, 184, 162],
       Nickname = Some (bytes
           [224, 184, 138, 224, 184, 178, 224, 184, 162]),
       Phone = Some ''081-234-5678'', Age = 35, DateOfBirth = Some ''1989-03-15'',
       Photo = None, CreatedAt = 0, UpdatedAt = 0\<rparr>,
      \<lparr>HN = ''HN000002'',
       FullName = bytes
           [224, 184, 153, 224, 184, 178, 224, 184, 135, 224, 184, 170, 224, 184,
            178, 224, 184, 167, 224, 184, 170, 224, 184, 161, 224, 184, 171, 224,
            184, 141, 224, 184, 180, 224, 184, 135, 32, 224, 184, 170, 224, 184,
            167, 224, 184, 162, 224, 184, 135, 224, 184, 178, 224, 184, 161],
       Gender = bytes
           [224, 184, 171, 224, 184, 141, 224, 184, 180, 224, 184, 135],
       Nickname = Some (bytes
           [224, 184, 171, 224, 184, 141, 224, 184, 180, 224, 184, 135]),
       Phone = Some ''082-345-6789'', Age = 28, DateOfBirth = Some ''1996-07-22'',
       Photo = None, CreatedAt = 0, UpdatedAt = 0\<rparr>,
      \<lparr>HN = ''HN000003'',
       FullName = bytes
           [224, 184, 153, 224, 184, 178, 224, 184, 162, 224, 184, 167, 224, 184,
            180, 224, 184, 138, 224, 184, 177, 224, 184, 162, 32, 224, 185, 128,
            224, 184, 129, 224, 185, 136, 224, 184, 135, 224, 184, 129, 224, 184,
            178, 224, 184, 136],
       Gender = bytes
           [224, 184, 138, 224, 184, 178, 224, 184, 162],
       Nickname = Some (bytes
           [224, 184, 167, 224, 184, 180, 224, 184, 138, 224, 184, 177, 224, 184,
            162]),
       Phone = Some ''083-456-7890'', Age = 42, DateOfBirth = Some ''1982-11-08'',
       Photo = None, CreatedAt = 0, UpdatedAt = 0\<rparr>]"

definition createSampleData :: "(nat \<Rightarrow> time) \<Rightarrow> world \<Rightarrow> world" where
  "createSampleData now w = run now w (map CallCreate samplePatients)"

definition NewMockPatientRepository :: "(nat \<Rightarrow> time) \<Rightarrow> nat \<Rightarrow> world" where
  "NewMockPatientRepository now k = createSampleData now (\<lparr>patients = []\<rparr>, k)"

text \<open>
  What the methods keep true of the repository: no key occurs twice (it is a map), every
  record is stored under its own hospital number, and no record carries a time of
  update later than the next reading of the clock.
\<close>

definition keys_ok :: "MockPatientRepository \<Rightarrow> bool" where
  "keys_ok r =
     (distinct (map fst (patients r)) \<and> list_all (\<lambda>(k, p). HN p = k) (patients r))"

definition stamps_ok :: "(nat \<Rightarrow> time) \<Rightarrow> world \<Rightarrow> bool" where
  "stamps_ok now w = list_all (\<lambda>(k, p). UpdatedAt p \<le> now (snd w)) (patients (fst w))"

definition deletes :: "string \<Rightarrow> call \<Rightarrow> bool" where
  \<comment> \<open>the call is a \<open>Delete\<close> that addresses the hospital number \<open>hn\<close>\<close>
  "deletes hn c = (case c of CallDelete i \<Rightarrow> hnString i = hn | _ \<Rightarrow> False)"

subsection \<open>Sample inputs\<close>

text \<open>
  The empty repository is the one \<open>NewMockPatientRepository\<close> starts from
  (\<open>make(map[string]*Patient)\<close>). \<open>somchai\<close> is a request as a client may post it:
  the hospital number \<open>HN1\<close>, a name, a gender and an age, nothing else; the times are
  the zero time. \<open>clock100\<close> is a clock that starts at 100 and advances by one at every
  reading.
\<close>

definition sampleTable :: "nat \<Rightarrow> nat list" where
  \<comment> \<open>a table with the two mappings quoted above (U+0149 is 329, U+02BC is 700, U+1E96
      is 7830, U+0331 is 817) and every other code point left as it is\<close>
  "sampleTable c = (if c = 329 then [700, 78] else if c = 7830 then [72, 817] else [c])"

definition emptyRepository :: MockPatientRepository where
  "emptyRepository = \<lparr>patients = []\<rparr>"

definition somchai :: Patient where
  "somchai =
     \<lparr>HN = ''HN1'', FullName = ''Somchai Jaidee'', Gender = ''male'', Nickname = None,
      Phone = None, Age = 35, DateOfBirth = None, Photo = None,
      CreatedAt = 0, UpdatedAt = 0\<rparr>"

definition clock100 :: "nat \<Rightarrow> time" where
  "clock100 k = 100 + k"

definition twoPatients :: MockPatientRepository where
  \<comment> \<open>the empty repository after two calls of \<open>Create\<close>\<close>
  "twoPatients =
     fst (run clock100 (emptyRepository, 0)
            [CallCreate (somchai\<lparr>HN := ''HN000001''\<rparr>),
             CallCreate (somchai\<lparr>HN := ''HN000002''\<rparr>)])"

section \<open>Theorems\<close>

text \<open>
  C6. Age validation, for every integer: 0 is rejected, every negative value is
  rejected, every value above 150 is rejected (151 is rejected, 150 is accepted), and
  every accepted value above 100 (such as 120) is accepted with an advisory (type
  'warning') and not plainly (type 'success').
\<close>

theorem validateAge_outcomes:
  "isValid (validateAge a) = (1 \<le> a \<and> a \<le> 150)
   \<and> vtype (validateAge a) =
       (if a < 1 \<or> 150 < a then Error else if 100 < a then Warning else Success)
   \<and> \<not> isValid (validateAge 0)
   \<and> isValid (validateAge 150) \<and> vtype (validateAge 150) = Warning
   \<and> \<not> isValid (validateAge 151)
   \<and> isValid (validateAge 120) \<and> vtype (validateAge 120) = Warning"
  by (simp add: validateAge_def)

subsection \<open>Hospital numbers in the form\<close>

lemma validateHN_valid: "isValid (validateHN hn) = hnPattern hn"
  by (auto simp: validateHN_def hnPattern_def)

lemma hnPattern_HN:
  "hnPattern (CHR ''H'' # CHR ''N'' # ds) = (length ds = 6 \<and> list_all isDigit ds)"
  by (auto simp: hnPattern_def)

lemma hnPattern_startsWith: "hnPattern c \<Longrightarrow> startsWith c ''HN''"
  by (simp add: hnPattern_def startsWith_def numeral_2_eq_2)

lemma isDigit_zero: "isDigit (CHR ''0'')"
  by (simp add: isDigit_def)

lemma formatHN_cases:
  "formatHN table raw =
     (let c = stripNonHN (toUpperCase table raw)
      in if c \<noteq> [] \<and> isDigit (hd c) then ''HN'' @ take 6 c
         else if startsWith c ''HN'' then ''HN'' @ take 6 (drop 2 c)
         else c)"
  by (simp add: formatHN_def Let_def startsWith_def)

lemma addLeadingZeros_HN:
  "addLeadingZeros (CHR ''H'' # CHR ''N'' # t) =
     (if t \<noteq> [] \<and> length t < 6
      then CHR ''H'' # CHR ''N'' # replicate (6 - length t) (CHR ''0'') @ t
      else CHR ''H'' # CHR ''N'' # t)"
  by (simp add: addLeadingZeros_def startsWith_def padStart_def)

lemma addLeadingZeros_other: "\<not> startsWith c ''HN'' \<Longrightarrow> addLeadingZeros c = c"
  by (simp add: addLeadingZeros_def)

lemma handleFieldBlur_hn_pads: "handleFieldBlur_hn hn = addLeadingZeros hn"
  by (simp add: handleFieldBlur_hn_def Let_def addLeadingZeros_def)

lemma parseHN_chain:
  "parseHN table blurred raw =
     (let hn = (if blurred then addLeadingZeros (formatHN table raw) else formatHN table raw)
      in if hnPattern hn then Some hn else None)"
  by (simp add: parseHN_def handleInputChange_hn_def handleSubmit_hn_def
      handleFieldBlur_hn_pads validateHN_valid Let_def)

lemma parse_HN_body:
  "(let hn = (if blurred then addLeadingZeros (''HN'' @ take 6 b) else ''HN'' @ take 6 b)
    in if hnPattern hn then Some hn else None)
   = (if list_all isDigit (take 6 b) \<and> (length (take 6 b) = 6 \<or> (blurred \<and> take 6 b \<noteq> []))
      then Some (''HN'' @ replicate (6 - length (take 6 b)) (CHR ''0'') @ take 6 b)
      else None)"
proof -
  define t where "t = take 6 b"
  have len: "length t \<le> 6" by (simp add: t_def)
  have "(let hn = (if blurred then addLeadingZeros (''HN'' @ t) else ''HN'' @ t)
    in if hnPattern hn then Some hn else None)
   = (if list_all isDigit t \<and> (length t = 6 \<or> (blurred \<and> t \<noteq> []))
      then Some (''HN'' @ replicate (6 - length t) (CHR ''0'') @ t)
      else None)"
    using len
    by (auto simp: Let_def addLeadingZeros_HN hnPattern_HN isDigit_zero list_all_iff)
  then show ?thesis by (simp only: t_def)
qed

lemma parse_other:
  assumes "\<not> startsWith c ''HN''"
  shows "(let hn = (if blurred then addLeadingZeros c else c)
          in if hnPattern hn then Some hn else None) = None"
proof -
  have "\<not> hnPattern c" using assms hnPattern_startsWith by blast
  then show ?thesis using assms by (simp add: addLeadingZeros_other Let_def)
qed

lemma parseHN_on_cleaned:
  fixes c :: string
  shows "(let hn = (if blurred
                    then addLeadingZeros
                           (if d then ''HN'' @ take 6 c
                            else if startsWith c ''HN'' then ''HN'' @ take 6 (drop 2 c)
                            else c)
                    else (if d then ''HN'' @ take 6 c
                          else if startsWith c ''HN'' then ''HN'' @ take 6 (drop 2 c)
                          else c))
          in if hnPattern hn then Some hn else None)
       = (case (if d then Some c
                else if startsWith c ''HN'' then Some (drop 2 c)
                else None) of
            None \<Rightarrow> None
          | Some b \<Rightarrow>
              (if list_all isDigit (take 6 b) \<and>
                  (length (take 6 b) = 6 \<or> (blurred \<and> take 6 b \<noteq> []))
               then Some (''HN'' @ replicate (6 - length (take 6 b)) (CHR ''0'') @ take 6 b)
               else None))"
proof (cases d)
  case True
  then show ?thesis by (simp only: if_True option.case parse_HN_body)
next
  case False
  show ?thesis
  proof (cases "startsWith c ''HN''")
    case True
    with False show ?thesis by (simp only: if_True if_False option.case parse_HN_body)
  next
    case no: False
    with False show ?thesis by (simp only: if_False option.case parse_other[OF no])
  qed
qed

lemma parseHN_of_cleaned:
  assumes "stripNonHN (toUpperCase table raw) = c"
  shows "parseHN table blurred raw =
     (let typed = (if c \<noteq> [] \<and> isDigit (hd c) then ''HN'' @ take 6 c
                   else if startsWith c ''HN'' then ''HN'' @ take 6 (drop 2 c)
                   else c);
          hn = (if blurred then addLeadingZeros typed else typed)
      in if hnPattern hn then Some hn else None)"
  unfolding parseHN_chain formatHN_cases assms Let_def ..

lemma char_of_values:
  "char_of (72::nat) = CHR ''H''" "char_of (78::nat) = CHR ''N''"
  "char_of (49::nat) = CHR ''1''" "char_of (50::nat) = CHR ''2''"
  "char_of (51::nat) = CHR ''3''" "char_of (52::nat) = CHR ''4''"
  "char_of (53::nat) = CHR ''5''" "char_of (54::nat) = CHR ''6''"
  by code_simp+

lemma cleaned_samples:
  "stripNonHN (toUpperCase sampleTable [49]) = ''1''"
  "stripNonHN (toUpperCase sampleTable [104, 110, 49]) = ''HN1''"
  "stripNonHN (toUpperCase sampleTable [104, 329, 32, 49]) = ''HN1''"
  "stripNonHN (toUpperCase sampleTable [49, 50, 51, 52, 53, 54]) = ''123456''"
  by (simp_all add: stripNonHN_def toUpperCase_def upperCodePoint_def sampleTable_def
      char_of_values)

lemma admitted_samples:
  "fieldAdmits [49]" "fieldAdmits [104, 110, 49]" "fieldAdmits [104, 329, 32, 49]"
  "fieldAdmits [49, 50, 51, 52, 53, 54]"
  by (simp_all add: fieldAdmits_def utf16Length_def hnMaxLength_def)

lemma parseHN_spec_samples:
  "parseHN_spec [49] = None" "parseHN_spec [104, 110, 49] = None"
  by (simp_all add: parseHN_spec_def startsWith_def char_of_values)

lemma toUpperCase_ascii:
  "list_all (\<lambda>c. c < 128) raw \<Longrightarrow> toUpperCase table raw = toUpperCase table' raw"
  by (induction raw) (simp_all add: toUpperCase_def upperCodePoint_def)

lemma parseHN_ascii:
  "list_all (\<lambda>c. c < 128) raw \<Longrightarrow> parseHN table blurred raw = parseHN table' blurred raw"
  by (simp add: parseHN_def handleInputChange_hn_def formatHN_def
      toUpperCase_ascii[of raw table table'])

text \<open>
  C4, as it stands in the description: hospital-number parsing strips the characters
  outside \<open>[A-Z0-9]\<close>, requires \<open>HN\<close> and 1 to 6 digits after the stripping, and rejects
  every other text. The form does otherwise. The text \<open>1\<close> (code point 49), which the
  field admits, has no prefix, and the text \<open>hn1\<close> (104, 110, 49) loses its two letters
  when the characters outside \<open>[A-Z0-9]\<close> are stripped; the description rejects both, the
  form supplies or upper-cases the prefix and sends \<open>HN000001\<close> for both. Both texts
  are ASCII, for which the table is not consulted (\<open>parseHN_ascii\<close>).
\<close>

theorem parseHN_supplies_prefix_counterexample:
  "fieldAdmits [49]
   \<and> parseHN sampleTable True [49] = Some ''HN000001'' \<and> parseHN_spec [49] = None
   \<and> fieldAdmits [104, 110, 49]
   \<and> parseHN sampleTable True [104, 110, 49] = Some ''HN000001''
   \<and> parseHN_spec [104, 110, 49] = None"
proof -
  note parseHN_of_cleaned[OF cleaned_samples(1), of True]
  also have "(let typed = (if ''1'' \<noteq> [] \<and> isDigit (hd ''1'') then ''HN'' @ take 6 ''1''
                   else if startsWith ''1'' ''HN'' then ''HN'' @ take 6 (drop 2 ''1'')
                   else ''1'');
          hn = (if True then addLeadingZeros typed else typed)
      in if hnPattern hn then Some hn else None) = Some ''HN000001''"
    by code_simp
  finally have p1: "parseHN sampleTable True [49] = Some ''HN000001''" .
  note parseHN_of_cleaned[OF cleaned_samples(2), of True]
  also have "(let typed = (if ''HN1'' \<noteq> [] \<and> isDigit (hd ''HN1'') then ''HN'' @ take 6 ''HN1''
                   else if startsWith ''HN1'' ''HN'' then ''HN'' @ take 6 (drop 2 ''HN1'')
                   else ''HN1'');
          hn = (if True then addLeadingZeros typed else typed)
      in if hnPattern hn then Some hn else None) = Some ''HN000001''"
    by code_simp
  finally have p2: "parseHN sampleTable True [104, 110, 49] = Some ''HN000001''" .
  show ?thesis
    by (intro conjI admitted_samples(1) p1 parseHN_spec_samples(1) admitted_samples(2) p2
        parseHN_spec_samples(2))
qed

text \<open>
  C4, amended: for every raw text, hospital-number parsing in the form puts the text in
  upper case (\<open>toUpperCase\<close> of JavaScript, whatever the Unicode table) and strips every
  character other than \<open>H\<close>, \<open>N\<close> and the digits; a text that then starts with a digit
  is the number, a text that starts with \<open>HN\<close> has the number after the prefix, and any
  other text is rejected; the number is cut to its first 6 characters; it is accepted
  exactly when these are all digits and are either 6, or at least one once the field has
  lost the focus, and is then left-padded with zeros to 6 digits behind \<open>HN\<close>. So it
  rejects when nothing follows the prefix, and it does not reject more than 6 digits: it
  keeps the first 6.
\<close>

theorem parseHN_is_direct: "parseHN table blurred raw = parseHN_direct table blurred raw"
  unfolding parseHN_chain formatHN_cases parseHN_direct_def
  using parseHN_on_cleaned[of blurred "stripNonHN (toUpperCase table raw) \<noteq> [] \<and>
      isDigit (hd (stripNonHN (toUpperCase table raw)))" "stripNonHN (toUpperCase table raw)"]
  by (simp only: Let_def)

text \<open>
  The text of the four code points \<open>h\<close>, U+0149, a blank and \<open>1\<close>, which the field
  admits: the upper-case mapping of U+0149 ends in \<open>N\<close>, the cleaned text is \<open>HN1\<close>, and
  \<open>HN000001\<close> is sent after the blur; without the blur the form refuses. Six digits
  are accepted without the blur.
\<close>

theorem parseHN_is_direct_witness:
  "fieldAdmits [104, 329, 32, 49]
   \<and> parseHN sampleTable True [104, 329, 32, 49] = Some ''HN000001''
   \<and> parseHN sampleTable False [104, 329, 32, 49] = None
   \<and> fieldAdmits [49, 50, 51, 52, 53, 54]
   \<and> parseHN sampleTable False [49, 50, 51, 52, 53, 54] = Some ''HN123456''"
proof -
  have d: "parseHN_direct sampleTable True [104, 329, 32, 49] = Some ''HN000001''"
    "parseHN_direct sampleTable False [104, 329, 32, 49] = None"
    "parseHN_direct sampleTable False [49, 50, 51, 52, 53, 54] = Some ''HN123456''"
    unfolding parseHN_direct_def cleaned_samples by code_simp+
  show ?thesis
    unfolding parseHN_is_direct
    by (intro conjI admitted_samples(3) d(1) d(2) admitted_samples(4) d(3))
qed

subsection \<open>Telephone numbers in the form\<close>

text \<open>
  C7. Phone validation of a text that is not empty, on its digits: fewer than 9 or more
  than 12 digits are rejected; 10 digits are accepted exactly when they start with 06,
  08 or 09; 9 digits are accepted exactly when they start with 0; every other number of
  digits is rejected; and 0812345678 is accepted and shown as 081-234-5678.
\<close>

theorem validatePhone_rules:
  assumes "phone \<noteq> []"
  shows "isValid (validatePhone phone) =
           (let c = filter isDigit phone
            in (length c = 10 \<and>
                  (startsWith c ''06'' \<or> startsWith c ''08'' \<or> startsWith c ''09''))
               \<or> (length c = 9 \<and> startsWith c ''0''))
         \<and> vtype (validatePhone phone) =
             (if isValid (validatePhone phone) then Success else Error)
         \<and> isValid (validatePhone ''0812345678'')
         \<and> formatPhoneNumber ''0812345678'' = ''081-234-5678''
         \<and> isValid (validatePhone ''021234567'')
         \<and> \<not> isValid (validatePhone ''1234567'')"
proof -
  have general: "isValid (validatePhone phone) =
           (let c = filter isDigit phone
            in (length c = 10 \<and>
                  (startsWith c ''06'' \<or> startsWith c ''08'' \<or> startsWith c ''09''))
               \<or> (length c = 9 \<and> startsWith c ''0''))"
    using assms by (simp add: validatePhone_def Let_def)
  have kind: "vtype (validatePhone phone) =
             (if isValid (validatePhone phone) then Success else Error)"
    using assms by (simp add: validatePhone_def Let_def)
  have examples: "isValid (validatePhone ''0812345678'')"
    "formatPhoneNumber ''0812345678'' = ''081-234-5678''"
    "isValid (validatePhone ''021234567'')"
    "\<not> isValid (validatePhone ''1234567'')"
    by code_simp+
  from general kind examples show ?thesis by blast
qed

theorem validatePhone_rules_witness:
  "''081-234-5678'' \<noteq> [] \<and> isValid (validatePhone ''081-234-5678'')
   \<and> ''12345678901'' \<noteq> [] \<and> \<not> isValid (validatePhone ''12345678901'')"
proof -
  have h1: "''081-234-5678'' \<noteq> []" and h2: "''12345678901'' \<noteq> []" by simp_all
  have c1: "let c = filter isDigit ''081-234-5678''
            in (length c = 10 \<and>
                  (startsWith c ''06'' \<or> startsWith c ''08'' \<or> startsWith c ''09''))
               \<or> (length c = 9 \<and> startsWith c ''0'')"
    by code_simp
  have c2: "\<not> (let c = filter isDigit ''12345678901''
            in (length c = 10 \<and>
                  (startsWith c ''06'' \<or> startsWith c ''08'' \<or> startsWith c ''09''))
               \<or> (length c = 9 \<and> startsWith c ''0''))"
    by code_simp
  from validatePhone_rules[OF h1] c1 have v1: "isValid (validatePhone ''081-234-5678'')"
    by blast
  from validatePhone_rules[OF h2] c2 have v2: "\<not> isValid (validatePhone ''12345678901'')"
    by blast
  from h1 v1 h2 v2 show ?thesis by blast
qed

subsection \<open>Decimal digits\<close>

lemma isDigit_cases:
  "isDigit c =
     (c = CHR ''0'' \<or> c = CHR ''1'' \<or> c = CHR ''2'' \<or> c = CHR ''3'' \<or> c = CHR ''4'' \<or>
      c = CHR ''5'' \<or> c = CHR ''6'' \<or> c = CHR ''7'' \<or> c = CHR ''8'' \<or> c = CHR ''9'')"
  by (simp add: isDigit_def)

lemma below_ten:
  "(d::nat) < 10 \<Longrightarrow>
   d = 0 \<or> d = 1 \<or> d = 2 \<or> d = 3 \<or> d = 4 \<or> d = 5 \<or> d = 6 \<or> d = 7 \<or> d = 8 \<or> d = 9"
  by arith

lemma digitChar_values:
  "digitChar 0 = CHR ''0''" "digitChar 1 = CHR ''1''" "digitChar 2 = CHR ''2''"
  "digitChar 3 = CHR ''3''" "digitChar 4 = CHR ''4''" "digitChar 5 = CHR ''5''"
  "digitChar 6 = CHR ''6''" "digitChar 7 = CHR ''7''" "digitChar 8 = CHR ''8''"
  "digitChar 9 = CHR ''9''" "digitChar (Suc 0) = CHR ''1''"
  by code_simp+

lemma isDigit_digitChar: "d < 10 \<Longrightarrow> isDigit (digitChar d)"
  using below_ten[of d] by (auto simp: digitChar_values isDigit_cases)

lemma digit_value_less: "isDigit c \<Longrightarrow> (of_char c :: nat) - 48 < 10"
  by (auto simp: isDigit_cases)

lemma digitChar_value: "isDigit c \<Longrightarrow> digitChar (of_char c - 48) = c"
  by (auto simp: isDigit_cases digitChar_values)

lemma value_digitChar: "d < 10 \<Longrightarrow> (of_char (digitChar d) :: nat) - 48 = d"
  using below_ten[of d] by (auto simp: digitChar_values)

lemma digit_value_zero: "isDigit c \<Longrightarrow> (of_char c :: nat) - 48 = 0 \<Longrightarrow> c = CHR ''0''"
  by (auto simp: isDigit_cases)

lemma decimal_step:
  "d < 10 \<Longrightarrow>
   decimal (10 * v + d) = (if v = 0 then [digitChar d] else decimal v @ [digitChar d])"
  by (subst decimal.simps) auto

lemma digitsValue_snoc: "digitsValue (ds @ [c]) = 10 * digitsValue ds + (of_char c - 48)"
  by (simp add: digitsValue_def)

lemma digitsValue_Nil: "digitsValue [] = 0"
  by (simp add: digitsValue_def)

lemma digitsValue_zero:
  "list_all isDigit ds \<Longrightarrow> digitsValue ds = 0 \<Longrightarrow> ds = replicate (length ds) (CHR ''0'')"
proof (induction ds rule: rev_induct)
  case Nil
  then show ?case by simp
next
  case (snoc c ds)
  then have "isDigit c" "digitsValue ds = 0" "(of_char c :: nat) - 48 = 0"
    by (simp_all add: digitsValue_snoc)
  then have c0: "c = CHR ''0''" by (simp add: digit_value_zero)
  have ih: "ds = replicate (length ds) (CHR ''0'')"
    using snoc \<open>digitsValue ds = 0\<close> by simp
  have "replicate (length (ds @ [c])) (CHR ''0'') = replicate (length ds) (CHR ''0'') @ [CHR ''0'']"
    by (simp add: replicate_append_same)
  then show ?case by (metis ih c0)
qed

lemma padStart_snoc: "padStart (Suc n) z (s @ [c]) = padStart n z s @ [c]"
  by (simp add: padStart_def)

lemma decimal_digitsValue:
  "list_all isDigit ds \<Longrightarrow> ds \<noteq> [] \<Longrightarrow>
   padStart (length ds) (CHR ''0'') (decimal (digitsValue ds)) = ds"
proof (induction ds rule: rev_induct)
  case Nil
  then show ?case by simp
next
  case (snoc c ds)
  then have c: "isDigit c" and ds: "list_all isDigit ds" by simp_all
  let ?d = "(of_char c :: nat) - 48"
  have d: "?d < 10" "digitChar ?d = c"
    using c by (simp_all add: digit_value_less digitChar_value)
  show ?case
  proof (cases "digitsValue ds = 0")
    case True
    then have "ds = replicate (length ds) (CHR ''0'')"
      using ds by (rule digitsValue_zero[rotated])
    then show ?thesis
      using True d decimal_step[of ?d 0]
      by (simp add: digitsValue_snoc padStart_def)
  next
    case False
    then have "ds \<noteq> []" by (auto simp: digitsValue_Nil)
    then have "padStart (length ds) (CHR ''0'') (decimal (digitsValue ds)) = ds"
      using snoc.IH ds by simp
    then show ?thesis
      using False d decimal_step[of ?d "digitsValue ds"]
      by (simp add: digitsValue_snoc padStart_snoc)
  qed
qed

lemma hnString_toSurrogate: "hnPattern hn \<Longrightarrow> hnString (toSurrogate hn) = hn"
proof -
  assume h: "hnPattern hn"
  then have len: "length (drop 2 hn) = 6" and dig: "list_all isDigit (drop 2 hn)"
    and pre: "take 2 hn = ''HN''"
    by (simp_all add: hnPattern_def)
  from len have ne: "drop 2 hn \<noteq> []" by auto
  have "padStart 6 (CHR ''0'') (decimal (digitsValue (drop 2 hn))) = drop 2 hn"
    using decimal_digitsValue[OF dig ne] len by simp
  then have "hnString (toSurrogate hn) = take 2 hn @ drop 2 hn"
    by (simp add: hnString_def toSurrogate_def sprintf_06d_def pre)
  then show ?thesis by simp
qed

lemma list_all_decimal: "list_all isDigit (decimal n)"
proof (induction n rule: decimal.induct)
  case (1 n)
  show ?case
  proof (cases "n < 10")
    case True
    then show ?thesis by (subst decimal.simps) (simp add: isDigit_digitChar)
  next
    case False
    with 1 show ?thesis by (subst decimal.simps) (simp add: isDigit_digitChar)
  qed
qed

lemma digitsValue_decimal: "digitsValue (decimal n) = n"
proof (induction n rule: decimal.induct)
  case (1 n)
  show ?case
  proof (cases "n < 10")
    case True
    then show ?thesis
      by (subst decimal.simps) (simp add: digitsValue_def value_digitChar)
  next
    case False
    with 1 have "digitsValue (decimal (n div 10)) = n div 10" by simp
    with False show ?thesis
      by (subst decimal.simps) (simp add: digitsValue_snoc value_digitChar)
  qed
qed

lemma length_decimal: "n < 10 ^ k \<Longrightarrow> 0 < k \<Longrightarrow> length (decimal n) \<le> k"
proof (induction k arbitrary: n)
  case 0
  then show ?case by simp
next
  case (Suc k)
  show ?case
  proof (cases "n < 10")
    case True
    then show ?thesis by (subst decimal.simps) simp
  next
    case False
    then have "0 < k" using Suc.prems by (cases k) auto
    moreover have "n div 10 < 10 ^ k"
      using Suc.prems by (simp add: less_mult_imp_div_less mult.commute)
    ultimately have "length (decimal (n div 10)) \<le> k" by (rule Suc.IH[rotated])
    with False show ?thesis by (subst decimal.simps) simp
  qed
qed

lemma digitsValue_zeros: "digitsValue (replicate k (CHR ''0'') @ ds) = digitsValue ds"
  by (induction k) (simp_all add: digitsValue_def)

lemma list_all_zeros: "list_all isDigit (replicate k (CHR ''0''))"
  by (induction k) (simp_all add: isDigit_zero)

lemma length_sprintf_06d: "6 \<le> length (sprintf_06d i)"
  unfolding sprintf_06d_def padStart_def by (simp; arith)

lemma length_hnString: "8 \<le> length (hnString i)"
  using length_sprintf_06d[of i] by (simp add: hnString_def)

lemma hnString_canonical:
  assumes "0 \<le> i" "i < 1000000"
  shows "hnPattern (hnString i)" "toSurrogate (hnString i) = i"
proof -
  have "nat i < 10 ^ 6" using assms by simp
  then have len: "length (decimal (nat i)) \<le> 6" by (rule length_decimal) simp
  have s: "sprintf_06d i = replicate (6 - length (decimal (nat i))) (CHR ''0'') @ decimal (nat i)"
    using assms by (simp add: sprintf_06d_def padStart_def)
  show "hnPattern (hnString i)"
    using len list_all_decimal[of "nat i"]
    by (simp add: hnPattern_def hnString_def s list_all_zeros)
  show "toSurrogate (hnString i) = i"
    using assms by (simp add: toSurrogate_def hnString_def s digitsValue_zeros digitsValue_decimal)
qed

subsection \<open>The repository\<close>


lemma map_of_AList_update: "map_of (AList.update k v al) = (map_of al)(k \<mapsto> v)"
  by (rule AList.update_conv')

lemma map_of_AList_delete: "map_of (AList.delete k al) = (map_of al)(k := None)"
  by (rule AList.delete_conv')

lemma list_all_AList_update:
  "list_all P al \<Longrightarrow> P (k, v) \<Longrightarrow> list_all P (AList.update k v al)"
  by (induction al) auto

lemma list_all_AList_delete: "list_all P al \<Longrightarrow> list_all P (AList.delete k al)"
  by (induction al) auto

lemma keys_AList_delete: "list_all (\<lambda>(k', p). k' \<noteq> k) (AList.delete k al)"
  by (induction al) auto

lemma Create_present:
  "map_of (patients r) (HN p) = Some e \<Longrightarrow> Create r p t1 t2 = (Inl (AlreadyExists (HN p)), r)"
  by (simp add: Create_def)

lemma Create_absent:
  "map_of (patients r) (HN p) = None \<Longrightarrow>
   Create r p t1 t2 =
     (Inr (p\<lparr>CreatedAt := t1, UpdatedAt := t2\<rparr>),
      r\<lparr>patients := AList.update (HN p) (p\<lparr>CreatedAt := t1, UpdatedAt := t2\<rparr>) (patients r)\<rparr>)"
  by (simp add: Create_def Let_def)

lemma Update_absent:
  "map_of (patients r) (HN p) = None \<Longrightarrow> Update r p t = (Inl (NotFound (HN p)), r)"
  by (simp add: Update_def)

lemma Update_present:
  "map_of (patients r) (HN p) = Some e \<Longrightarrow>
   Update r p t =
     (Inr (p\<lparr>CreatedAt := CreatedAt e, UpdatedAt := t\<rparr>),
      r\<lparr>patients := AList.update (HN p)
           (e\<lparr>FullName := FullName p, Gender := Gender p, Nickname := Nickname p,
              Phone := Phone p, Age := Age p, DateOfBirth := DateOfBirth p,
              Photo := Photo p, UpdatedAt := t\<rparr>) (patients r)\<rparr>)"
  by (simp add: Update_def)

lemma Delete_absent:
  "map_of (patients r) (hnString i) = None \<Longrightarrow> Delete r i = (Inl (NotFound (hnString i)), r)"
  by (simp add: Delete_def)

lemma Delete_present:
  "map_of (patients r) (hnString i) = Some e \<Longrightarrow>
   Delete r i = (Inr (), r\<lparr>patients := AList.delete (hnString i) (patients r)\<rparr>)"
  by (simp add: Delete_def)

lemma GetByID_lookup:
  "GetByID r i = (case map_of (patients r) (hnString i) of
                    None \<Rightarrow> Inl (NotFound (hnString i)) | Some p \<Rightarrow> Inr p)"
  by (simp add: GetByID_def Let_def)

lemma GetAll_result_set: "GetAll_result r ps \<Longrightarrow> set ps = snd ` set (patients r)"
proof -
  assume "GetAll_result r ps"
  then have "mset ps = mset (map snd (patients r))" by (simp add: GetAll_result_def)
  then have "set ps = set (map snd (patients r))" by (rule mset_eq_setD)
  then show ?thesis by simp
qed

lemma GetAll_is_result: "GetAll_result r (GetAll r)"
proof -
  have "sorted (map CreatedAt (sort_key CreatedAt (map snd (patients r))))"
    by (rule sorted_sort_key)
  then have "sorted_wrt (\<lambda>a b. CreatedAt a \<le> CreatedAt b) (sort_key CreatedAt (map snd (patients r)))"
    by (simp add: sorted_map)
  then have "sorted_wrt (\<lambda>a b. CreatedAt b \<le> CreatedAt a) (GetAll r)"
    by (simp add: GetAll_def sorted_wrt_rev)
  then have "sorted_wrt (\<lambda>a b. \<not> CreatedAt b > CreatedAt a) (GetAll r)"
    by (simp add: not_less)
  then show ?thesis by (simp add: GetAll_result_def GetAll_def)
qed


lemma keys_ok_empty: "keys_ok \<lparr>patients = []\<rparr>"
  by (simp add: keys_ok_def)

lemma keys_ok_Create: "keys_ok r \<Longrightarrow> keys_ok (snd (Create r p t1 t2))"
  by (cases "map_of (patients r) (HN p)")
     (simp_all add: Create_present Create_absent keys_ok_def AList.distinct_update
        list_all_AList_update)

lemma keys_ok_lookup: "keys_ok r \<Longrightarrow> map_of (patients r) k = Some e \<Longrightarrow> HN e = k"
  by (auto simp: keys_ok_def list_all_iff dest: map_of_SomeD)

lemma keys_ok_Update: "keys_ok r \<Longrightarrow> keys_ok (snd (Update r p t))"
proof (cases "map_of (patients r) (HN p)")
  case None
  assume "keys_ok r"
  with None show ?thesis by (simp add: Update_absent)
next
  case (Some e)
  assume k: "keys_ok r"
  then have "HN e = HN p" using Some by (rule keys_ok_lookup)
  with k show ?thesis
    by (simp add: Update_present[OF Some] keys_ok_def AList.distinct_update list_all_AList_update)
qed

lemma keys_ok_Delete: "keys_ok r \<Longrightarrow> keys_ok (snd (Delete r i))"
  by (cases "map_of (patients r) (hnString i)")
     (simp_all add: Delete_present Delete_absent keys_ok_def AList.distinct_delete
        list_all_AList_delete)

lemma stamps_ok_later:
  "mono now \<Longrightarrow> k \<le> k' \<Longrightarrow> stamps_ok now (r, k) \<Longrightarrow> stamps_ok now (r, k')"
proof -
  assume m: "mono now" and le: "k \<le> k'" and s: "stamps_ok now (r, k)"
  from m le have "now k \<le> now k'" by (rule monoD)
  with s show ?thesis by (auto simp: stamps_ok_def list_all_iff)
qed

lemma stamps_ok_lookup:
  "stamps_ok now (r, k) \<Longrightarrow> map_of (patients r) hn = Some e \<Longrightarrow> UpdatedAt e \<le> now k"
  by (auto simp: stamps_ok_def list_all_iff dest: map_of_SomeD)

lemma stamps_ok_update:
  "stamps_ok now (r, k) \<Longrightarrow> UpdatedAt v \<le> now k \<Longrightarrow>
   stamps_ok now (r\<lparr>patients := AList.update hn v (patients r)\<rparr>, k)"
  by (simp add: stamps_ok_def list_all_AList_update)

lemma step_invariant:
  assumes m: "mono now" and ko: "keys_ok (fst w)" and so: "stamps_ok now w"
  shows "keys_ok (fst (step now w c)) \<and> stamps_ok now (step now w c)"
proof -
  obtain r k where w: "w = (r, k)" by (cases w)
  have kr: "keys_ok r" and sr: "stamps_ok now (r, k)" using ko so w by simp_all
  show ?thesis
  proof (cases c)
    case CallGetAll
    with kr sr show ?thesis by (simp add: w)
  next
    case (CallGetByID i)
    with kr sr show ?thesis by (simp add: w)
  next
    case (CallCreate p)
    show ?thesis
    proof (cases "map_of (patients r) (HN p)")
      case None
      have k2: "stamps_ok now (r, k + 2)" using m _ sr by (rule stamps_ok_later) simp
      have "now (k + 1) \<le> now (k + 2)" using m by (simp add: monoD)
      then have "stamps_ok now
          (r\<lparr>patients := AList.update (HN p) (p\<lparr>CreatedAt := now k, UpdatedAt := now (k + 1)\<rparr>)
             (patients r)\<rparr>, k + 2)"
        using k2 by (simp add: stamps_ok_update)
      moreover have "keys_ok (snd (Create r p (now k) (now (k + 1))))"
        using kr by (rule keys_ok_Create)
      ultimately show ?thesis
        by (simp add: w CallCreate Create_absent[OF None])
    next
      case (Some e)
      with kr sr show ?thesis by (simp add: w CallCreate Create_present[OF Some])
    qed
  next
    case (CallUpdate p)
    show ?thesis
    proof (cases "map_of (patients r) (HN p)")
      case None
      with kr sr show ?thesis by (simp add: w CallUpdate Update_absent[OF None])
    next
      case (Some e)
      have k1: "stamps_ok now (r, k + 1)" using m _ sr by (rule stamps_ok_later) simp
      have "now k \<le> now (k + 1)" using m by (simp add: monoD)
      then have "stamps_ok now
          (r\<lparr>patients := AList.update (HN p)
             (e\<lparr>FullName := FullName p, Gender := Gender p, Nickname := Nickname p,
                Phone := Phone p, Age := Age p, DateOfBirth := DateOfBirth p,
                Photo := Photo p, UpdatedAt := now k\<rparr>) (patients r)\<rparr>, k + 1)"
        using k1 by (simp add: stamps_ok_update)
      moreover have "keys_ok (snd (Update r p (now k)))"
        using kr by (rule keys_ok_Update)
      ultimately show ?thesis
        by (simp add: w CallUpdate Update_present[OF Some])
    qed
  next
    case (CallDelete i)
    have "keys_ok (snd (Delete r i))" using kr by (rule keys_ok_Delete)
    moreover have "stamps_ok now (snd (Delete r i), k)"
      using sr by (cases "map_of (patients r) (hnString i)")
        (simp_all add: Delete_absent Delete_present stamps_ok_def list_all_AList_delete)
    ultimately show ?thesis by (simp add: w CallDelete)
  qed
qed

lemma step_keeps_record:
  assumes ko: "keys_ok (fst w)" and so: "stamps_ok now w"
    and a: "map_of (patients (fst w)) hn = Some a" and nd: "\<not> deletes hn c"
  shows "\<exists>b. map_of (patients (fst (step now w c))) hn = Some b \<and> HN b = HN a \<and>
              CreatedAt b = CreatedAt a \<and> UpdatedAt a \<le> UpdatedAt b"
proof -
  obtain r k where w: "w = (r, k)" by (cases w)
  have ar: "map_of (patients r) hn = Some a" and sr: "stamps_ok now (r, k)"
    and kr: "keys_ok r"
    using a so ko w by simp_all
  show ?thesis
  proof (cases c)
    case CallGetAll
    with ar show ?thesis by (simp add: w)
  next
    case (CallGetByID i)
    with ar show ?thesis by (simp add: w)
  next
    case (CallCreate p)
    show ?thesis
    proof (cases "map_of (patients r) (HN p)")
      case None
      then have "HN p \<noteq> hn" using ar by auto
      then show ?thesis
        using ar by (simp add: w CallCreate Create_absent[OF None] map_of_AList_update)
    next
      case (Some e)
      with ar show ?thesis by (simp add: w CallCreate Create_present[OF Some])
    qed
  next
    case (CallUpdate p)
    show ?thesis
    proof (cases "map_of (patients r) (HN p)")
      case None
      with ar show ?thesis by (simp add: w CallUpdate Update_absent[OF None])
    next
      case (Some e)
      show ?thesis
      proof (cases "HN p = hn")
        case True
        then have ea: "e = a" using Some ar by simp
        have "UpdatedAt a \<le> now k" using sr ar by (rule stamps_ok_lookup)
        then show ?thesis
          by (simp add: w CallUpdate Update_present[OF Some] map_of_AList_update True[symmetric] ea)
      next
        case False
        then show ?thesis
          using ar by (simp add: w CallUpdate Update_present[OF Some] map_of_AList_update)
      qed
    qed
  next
    case (CallDelete i)
    then have ne: "hnString i \<noteq> hn" using nd by (simp add: deletes_def)
    show ?thesis
      using ar ne by (cases "map_of (patients r) (hnString i)")
        (simp_all add: w CallDelete Delete_absent Delete_present map_of_AList_delete)
  qed
qed

lemma run_Nil: "run now w [] = w"
  by (simp add: run_def)

lemma run_Cons: "run now w (c # cs) = run now (step now w c) cs"
  by (simp add: run_def)

lemma run_snoc: "run now w (cs @ [c]) = step now (run now w cs) c"
  by (simp add: run_def)

lemma run_invariant:
  "mono now \<Longrightarrow> keys_ok (fst w) \<Longrightarrow> stamps_ok now w \<Longrightarrow>
   keys_ok (fst (run now w cs)) \<and> stamps_ok now (run now w cs)"
proof (induction cs arbitrary: w)
  case Nil
  then show ?case by (simp add: run_Nil)
next
  case (Cons c cs)
  from Cons.prems have "keys_ok (fst (step now w c)) \<and> stamps_ok now (step now w c)"
    by (rule step_invariant)
  with Cons.IH[of "step now w c"] Cons.prems(1) show ?case by (simp add: run_Cons)
qed

lemma run_keeps_record:
  "mono now \<Longrightarrow> keys_ok (fst w) \<Longrightarrow> stamps_ok now w \<Longrightarrow>
   map_of (patients (fst w)) hn = Some a \<Longrightarrow> list_all (\<lambda>c. \<not> deletes hn c) cs \<Longrightarrow>
   \<exists>b. map_of (patients (fst (run now w cs))) hn = Some b \<and> HN b = HN a \<and>
       CreatedAt b = CreatedAt a \<and> UpdatedAt a \<le> UpdatedAt b"
proof (induction cs arbitrary: w a)
  case Nil
  then show ?case by (simp add: run_Nil)
next
  case (Cons c cs)
  from Cons.prems have nd: "\<not> deletes hn c" and rest: "list_all (\<lambda>c. \<not> deletes hn c) cs"
    by simp_all
  from Cons.prems(2,3,4) nd obtain b where
    b: "map_of (patients (fst (step now w c))) hn = Some b" "HN b = HN a"
       "CreatedAt b = CreatedAt a" "UpdatedAt a \<le> UpdatedAt b"
    using step_keeps_record by blast
  have inv: "keys_ok (fst (step now w c)) \<and> stamps_ok now (step now w c)"
    using Cons.prems(1,2,3) by (rule step_invariant)
  from Cons.IH[OF Cons.prems(1) conjunct1[OF inv] conjunct2[OF inv] b(1) rest]
  obtain b' where "map_of (patients (fst (run now (step now w c) cs))) hn = Some b'"
     "HN b' = HN b" "CreatedAt b' = CreatedAt b" "UpdatedAt b \<le> UpdatedAt b'"
    by blast
  with b show ?case by (auto simp: run_Cons)
qed

subsection \<open>The claims on the repository\<close>

text \<open>
  C1. For every state of the repository and every record whose hospital number is
  already the key of a record, \<open>Create\<close> returns the error "already exists" and the
  repository is what it was: the record under that number is not overwritten and no
  time stamp changes.
\<close>

theorem Create_already_exists:
  assumes "map_of (patients r) (HN p) \<noteq> None"
  shows "Create r p now1 now2 = (Inl (AlreadyExists (HN p)), r)"
  using assms by (auto simp: Create_present)

text \<open>
  A second \<open>Create\<close> under the hospital number of a record that the first one stored.
\<close>

theorem Create_already_exists_witness:
  "map_of (patients (snd (Create emptyRepository somchai 1 2))) (HN (somchai\<lparr>Age := 36\<rparr>)) \<noteq> None
   \<and> Create (snd (Create emptyRepository somchai 1 2)) (somchai\<lparr>Age := 36\<rparr>) 3 4
       = (Inl (AlreadyExists (HN (somchai\<lparr>Age := 36\<rparr>))), snd (Create emptyRepository somchai 1 2))"
proof -
  have h: "map_of (patients (snd (Create emptyRepository somchai 1 2)))
             (HN (somchai\<lparr>Age := 36\<rparr>)) \<noteq> None"
    by code_simp
  show ?thesis using h Create_already_exists[OF h] by (rule conjI)
qed

text \<open>
  C2. For every state of the repository and every record \<open>p\<close> with a canonical
  hospital number (\<open>HN\<close> and six digits) that is not yet a key: \<open>Create\<close> succeeds;
  \<open>GetByID\<close> at the id of that number, and at every id that \<open>Sprintf\<close> writes as that
  number, returns \<open>p\<close> with the two time stamps assigned and every other field as given;
  and every list that \<open>GetAll\<close> may return contains this record.
\<close>

theorem Create_then_get:
  assumes canonical: "hnPattern (HN p)" and fresh: "map_of (patients r) (HN p) = None"
  shows "let p' = p\<lparr>CreatedAt := now1, UpdatedAt := now2\<rparr>;
             r' = snd (Create r p now1 now2)
         in fst (Create r p now1 now2) = Inr p' \<and>
            hnString (toSurrogate (HN p)) = HN p \<and>
            GetByID r' (toSurrogate (HN p)) = Inr p' \<and>
            (\<forall>i. hnString i = HN p \<longrightarrow> GetByID r' i = Inr p') \<and>
            p' \<in> set (GetAll r') \<and>
            (\<forall>ps. GetAll_result r' ps \<longrightarrow> p' \<in> set ps)"
proof -
  let ?p = "p\<lparr>CreatedAt := now1, UpdatedAt := now2\<rparr>"
  let ?r = "r\<lparr>patients := AList.update (HN p) ?p (patients r)\<rparr>"
  have c: "Create r p now1 now2 = (Inr ?p, ?r)" using fresh by (rule Create_absent)
  have look: "map_of (patients ?r) (HN p) = Some ?p" by (simp add: map_of_AList_update)
  have rt: "hnString (toSurrogate (HN p)) = HN p" using canonical by (rule hnString_toSurrogate)
  have get: "GetByID ?r i = Inr ?p" if "hnString i = HN p" for i
    using that look by (simp add: GetByID_lookup)
  have "(HN p, ?p) \<in> set (patients ?r)" using look by (rule map_of_SomeD)
  then have mem: "?p \<in> snd ` set (patients ?r)" by force
  have all: "?p \<in> set ps" if "GetAll_result ?r ps" for ps
    using mem GetAll_result_set[OF that] by simp
  have "?p \<in> set (GetAll ?r)" using GetAll_is_result by (rule all)
  then show ?thesis using rt get[OF rt] get all by (simp add: c Let_def)
qed

text \<open>
  The record with the number \<open>HN000001\<close> created in the empty repository and read back
  with the id 1.
\<close>

theorem Create_then_get_witness:
  "hnPattern (HN (somchai\<lparr>HN := ''HN000001''\<rparr>))
   \<and> map_of (patients emptyRepository) (HN (somchai\<lparr>HN := ''HN000001''\<rparr>)) = None
   \<and> GetAll_result (snd (Create emptyRepository (somchai\<lparr>HN := ''HN000001''\<rparr>) 1 2))
        [somchai\<lparr>HN := ''HN000001'', CreatedAt := 1, UpdatedAt := 2\<rparr>]
   \<and> hnString 1 = HN (somchai\<lparr>HN := ''HN000001''\<rparr>)
   \<and> GetByID (snd (Create emptyRepository (somchai\<lparr>HN := ''HN000001''\<rparr>) 1 2)) 1
       = Inr (somchai\<lparr>HN := ''HN000001'', CreatedAt := 1, UpdatedAt := 2\<rparr>)
   \<and> somchai\<lparr>HN := ''HN000001'', CreatedAt := 1, UpdatedAt := 2\<rparr>
       \<in> set [somchai\<lparr>HN := ''HN000001'', CreatedAt := 1, UpdatedAt := 2\<rparr>]"
proof -
  let ?p = "somchai\<lparr>HN := ''HN000001''\<rparr>"
  have h1: "hnPattern (HN ?p)" by code_simp
  have h2: "map_of (patients emptyRepository) (HN ?p) = None" by code_simp
  have h3: "GetAll_result (snd (Create emptyRepository ?p 1 2))
        [somchai\<lparr>HN := ''HN000001'', CreatedAt := 1, UpdatedAt := 2\<rparr>]"
    by code_simp
  have h4: "hnString 1 = HN ?p" by code_simp
  from Create_then_get[OF h1 h2, where ?now1.0 = 1 and ?now2.0 = 2]
  have "GetByID (snd (Create emptyRepository ?p 1 2)) 1 = Inr (?p\<lparr>CreatedAt := 1, UpdatedAt := 2\<rparr>)"
    and "?p\<lparr>CreatedAt := 1, UpdatedAt := 2\<rparr> \<in> set [somchai\<lparr>HN := ''HN000001'', CreatedAt := 1, UpdatedAt := 2\<rparr>]"
    using h3 h4 by (simp_all add: Let_def)
  then show ?thesis using h1 h2 h3 h4 by simp
qed

text \<open>
  C3. For every state of the repository and every id: when no record is stored under
  the hospital number of the id, \<open>Delete\<close> returns the error "not found" and the
  repository is what it was; when a record is stored there, \<open>Delete\<close> succeeds,
  \<open>GetByID\<close> at the id then returns "not found", and (every record being stored under
  its own number) no list that \<open>GetAll\<close> may return contains a record with that number.
\<close>

theorem Delete_outcomes:
  "(map_of (patients r) (hnString i) = None \<longrightarrow>
      Delete r i = (Inl (NotFound (hnString i)), r))
   \<and> (map_of (patients r) (hnString i) \<noteq> None \<longrightarrow>
        fst (Delete r i) = Inr () \<and>
        GetByID (snd (Delete r i)) i = Inl (NotFound (hnString i)) \<and>
        (keys_ok r \<longrightarrow>
           (\<forall>ps. GetAll_result (snd (Delete r i)) ps \<longrightarrow>
                 (\<forall>p \<in> set ps. HN p \<noteq> hnString i))))"
proof (cases "map_of (patients r) (hnString i)")
  case None
  then show ?thesis by (simp add: Delete_absent)
next
  case (Some e)
  let ?r = "r\<lparr>patients := AList.delete (hnString i) (patients r)\<rparr>"
  have d: "Delete r i = (Inr (), ?r)" using Some by (rule Delete_present)
  have gone: "GetByID ?r i = Inl (NotFound (hnString i))"
    by (simp add: GetByID_lookup map_of_AList_delete)
  have listed: "HN p \<noteq> hnString i" if k: "keys_ok r" and g: "GetAll_result ?r ps" and p: "p \<in> set ps" for ps p
  proof -
    from p GetAll_result_set[OF g] obtain k' where in_del: "(k', p) \<in> set (AList.delete (hnString i) (patients r))"
      by auto
    then have "k' \<noteq> hnString i"
      using keys_AList_delete[of "hnString i" "patients r"] by (auto simp: list_all_iff)
    moreover have "(k', p) \<in> set (patients r)"
      using in_del by (auto simp: AList.delete_eq)
    then have "HN p = k'" using k by (auto simp: keys_ok_def list_all_iff)
    ultimately show ?thesis by simp
  qed
  show ?thesis using Some gone listed by (simp add: d)
qed

text \<open>
  Of two stored records the first is deleted and the second stays listed; a third id
  addresses nothing.
\<close>

theorem Delete_outcomes_witness:
  "map_of (patients twoPatients) (hnString 1) \<noteq> None
   \<and> keys_ok twoPatients
   \<and> GetAll_result (snd (Delete twoPatients 1))
        [somchai\<lparr>HN := ''HN000002'', CreatedAt := 102, UpdatedAt := 103\<rparr>]
   \<and> fst (Delete twoPatients 1) = Inr ()
   \<and> GetByID (snd (Delete twoPatients 1)) 1 = Inl (NotFound (hnString 1))
   \<and> HN (somchai\<lparr>HN := ''HN000002'', CreatedAt := 102, UpdatedAt := 103\<rparr>) \<noteq> hnString 1
   \<and> map_of (patients twoPatients) (hnString 3) = None
   \<and> Delete twoPatients 3 = (Inl (NotFound (hnString 3)), twoPatients)"
proof -
  have h1: "map_of (patients twoPatients) (hnString 1) \<noteq> None" by code_simp
  have h2: "keys_ok twoPatients" by code_simp
  have h3: "GetAll_result (snd (Delete twoPatients 1))
        [somchai\<lparr>HN := ''HN000002'', CreatedAt := 102, UpdatedAt := 103\<rparr>]"
    by code_simp
  have h4: "map_of (patients twoPatients) (hnString 3) = None" by code_simp
  from Delete_outcomes[of twoPatients 1] h1 h2 h3
  have c1: "fst (Delete twoPatients 1) = Inr ()"
    "GetByID (snd (Delete twoPatients 1)) 1 = Inl (NotFound (hnString 1))"
    and listed: "\<forall>p \<in> set [somchai\<lparr>HN := ''HN000002'', CreatedAt := 102, UpdatedAt := 103\<rparr>].
         HN p \<noteq> hnString 1"
    by blast+
  from listed
  have c3: "HN (somchai\<lparr>HN := ''HN000002'', CreatedAt := 102, UpdatedAt := 103\<rparr>) \<noteq> hnString 1"
    by simp
  from Delete_outcomes[of twoPatients 3] h4
  have c2: "Delete twoPatients 3 = (Inl (NotFound (hnString 3)), twoPatients)"
    by blast
  from h1 h2 h3 h4 c1 c3 c2 show ?thesis by blast
qed

text \<open>
  The repository that the server starts with satisfies both invariants, and so does
  every repository reached from it (\<open>run_invariant\<close>).
\<close>

lemma NewMockPatientRepository_invariant:
  assumes "mono now"
  shows "keys_ok (fst (NewMockPatientRepository now k)) \<and>
         stamps_ok now (NewMockPatientRepository now k)"
  unfolding NewMockPatientRepository_def createSampleData_def
  using assms by (rule run_invariant) (simp_all add: keys_ok_def stamps_ok_def)

text \<open>
  C8. Under a clock that does not run backwards, from a state of the repository that
  the methods can reach, for a live record and every sequence of calls that does not
  delete it: the record is live at the end with the same hospital number and the same
  time of creation, and its time of update has not decreased. A further \<open>Update\<close> of
  it keeps the hospital number and the time of creation, replaces the seven other
  fields by those given and sets the time of update to the reading of the clock; a
  further \<open>Create\<close> of a new record sets both its time stamps from the clock.
\<close>

theorem stamps_along_calls:
  assumes clock: "mono now"
    and keys: "keys_ok (fst w)" and stamps: "stamps_ok now w"
    and live: "map_of (patients (fst w)) hn = Some a"
    and kept: "list_all (\<lambda>c. \<not> deletes hn c) cs"
  shows "\<exists>b. map_of (patients (fst (run now w cs))) hn = Some b \<and>
             HN b = HN a \<and> CreatedAt b = CreatedAt a \<and> UpdatedAt a \<le> UpdatedAt b \<and>
             (\<forall>p. HN p = hn \<longrightarrow>
                map_of (patients (fst (run now w (cs @ [CallUpdate p])))) hn =
                  Some (b\<lparr>FullName := FullName p, Gender := Gender p,
                          Nickname := Nickname p, Phone := Phone p, Age := Age p,
                          DateOfBirth := DateOfBirth p, Photo := Photo p,
                          UpdatedAt := now (snd (run now w cs))\<rparr>)) \<and>
             (\<forall>q. map_of (patients (fst (run now w cs))) (HN q) = None \<longrightarrow>
                map_of (patients (fst (run now w (cs @ [CallCreate q])))) (HN q) =
                  Some (q\<lparr>CreatedAt := now (snd (run now w cs)),
                          UpdatedAt := now (snd (run now w cs) + 1)\<rparr>))"
proof -
  obtain r k where rk: "run now w cs = (r, k)" by (cases "run now w cs")
  from run_keeps_record[OF clock keys stamps live kept] rk
  obtain b where b: "map_of (patients r) hn = Some b" "HN b = HN a"
    "CreatedAt b = CreatedAt a" "UpdatedAt a \<le> UpdatedAt b"
    by auto
  have upd: "map_of (patients (fst (run now w (cs @ [CallUpdate p])))) hn =
                  Some (b\<lparr>FullName := FullName p, Gender := Gender p,
                          Nickname := Nickname p, Phone := Phone p, Age := Age p,
                          DateOfBirth := DateOfBirth p, Photo := Photo p,
                          UpdatedAt := now k\<rparr>)" if "HN p = hn" for p
  proof -
    have "map_of (patients r) (HN p) = Some b" using b(1) that by simp
    then show ?thesis
      by (simp add: run_snoc rk Update_present map_of_AList_update that[symmetric])
  qed
  have cre: "map_of (patients (fst (run now w (cs @ [CallCreate q])))) (HN q) =
                  Some (q\<lparr>CreatedAt := now k, UpdatedAt := now (k + 1)\<rparr>)"
    if "map_of (patients r) (HN q) = None" for q
    using that by (simp add: run_snoc rk Create_absent map_of_AList_update)
  from b upd cre show ?thesis by (simp add: rk)
qed

text \<open>
  The record \<open>HN000001\<close> of \<open>twoPatients\<close> through an update of it, the deletion of the
  other record, a creation and a listing; then a further update of it, or the creation
  of \<open>HN000009\<close>. The clock has been read four times before and is read three times
  during the four calls.
\<close>

theorem stamps_along_calls_witness:
  "mono clock100
   \<and> keys_ok (fst (twoPatients, 4::nat))
   \<and> stamps_ok clock100 (twoPatients, 4)
   \<and> map_of (patients (fst (twoPatients, 4::nat))) ''HN000001''
       = Some (somchai\<lparr>HN := ''HN000001'', CreatedAt := 100, UpdatedAt := 101\<rparr>)
   \<and> list_all (\<lambda>c. \<not> deletes ''HN000001'' c)
        [CallUpdate (somchai\<lparr>HN := ''HN000001'', Age := 36\<rparr>), CallDelete 2,
         CallCreate somchai, CallGetAll]
   \<and> map_of (patients (fst (run clock100 (twoPatients, 4)
        [CallUpdate (somchai\<lparr>HN := ''HN000001'', Age := 36\<rparr>), CallDelete 2,
         CallCreate somchai, CallGetAll]))) ''HN000001''
       = Some (somchai\<lparr>HN := ''HN000001'', Age := 36, CreatedAt := 100, UpdatedAt := 104\<rparr>)
   \<and> HN (somchai\<lparr>HN := ''HN000001'', Age := 37\<rparr>) = ''HN000001''
   \<and> map_of (patients (fst (run clock100 (twoPatients, 4)
        ([CallUpdate (somchai\<lparr>HN := ''HN000001'', Age := 36\<rparr>), CallDelete 2,
          CallCreate somchai, CallGetAll]
         @ [CallUpdate (somchai\<lparr>HN := ''HN000001'', Age := 37\<rparr>)])))) ''HN000001''
       = Some (somchai\<lparr>HN := ''HN000001'', Age := 37, CreatedAt := 100, UpdatedAt := 107\<rparr>)
   \<and> map_of (patients (fst (run clock100 (twoPatients, 4)
        [CallUpdate (somchai\<lparr>HN := ''HN000001'', Age := 36\<rparr>), CallDelete 2,
         CallCreate somchai, CallGetAll]))) (HN (somchai\<lparr>HN := ''HN000009''\<rparr>)) = None
   \<and> map_of (patients (fst (run clock100 (twoPatients, 4)
        ([CallUpdate (somchai\<lparr>HN := ''HN000001'', Age := 36\<rparr>), CallDelete 2,
          CallCreate somchai, CallGetAll]
         @ [CallCreate (somchai\<lparr>HN := ''HN000009''\<rparr>)])))) (HN (somchai\<lparr>HN := ''HN000009''\<rparr>))
       = Some (somchai\<lparr>HN := ''HN000009'', CreatedAt := 107, UpdatedAt := 108\<rparr>)"
proof -
  let ?a = "somchai\<lparr>HN := ''HN000001'', CreatedAt := 100, UpdatedAt := 101\<rparr>"
  let ?cs = "[CallUpdate (somchai\<lparr>HN := ''HN000001'', Age := 36\<rparr>), CallDelete 2,
              CallCreate somchai, CallGetAll]"
  let ?B = "somchai\<lparr>HN := ''HN000001'', Age := 36, CreatedAt := 100, UpdatedAt := 104\<rparr>"
  let ?p = "somchai\<lparr>HN := ''HN000001'', Age := 37\<rparr>"
  let ?q = "somchai\<lparr>HN := ''HN000009''\<rparr>"
  have h1: "mono clock100" by (simp add: mono_def clock100_def)
  have h2: "keys_ok (fst (twoPatients, 4::nat))" by code_simp
  have h3: "stamps_ok clock100 (twoPatients, 4)" by code_simp
  have h4: "map_of (patients (fst (twoPatients, 4::nat))) ''HN000001'' = Some ?a" by code_simp
  have h5: "list_all (\<lambda>c. \<not> deletes ''HN000001'' c) ?cs" by code_simp
  have h6: "HN ?p = ''HN000001''" by simp
  have h7: "map_of (patients (fst (run clock100 (twoPatients, 4) ?cs))) (HN ?q) = None"
    by code_simp
  have e1: "map_of (patients (fst (run clock100 (twoPatients, 4) ?cs))) ''HN000001'' = Some ?B"
    by code_simp
  have e2: "clock100 (snd (run clock100 (twoPatients, 4) ?cs)) = 107"
    "clock100 (snd (run clock100 (twoPatients, 4) ?cs) + 1) = 108"
    by code_simp+
  from stamps_along_calls[OF h1 h2 h3 h4 h5]
  obtain b where b: "map_of (patients (fst (run clock100 (twoPatients, 4) ?cs))) ''HN000001'' = Some b"
    and upd: "\<forall>p. HN p = ''HN000001'' \<longrightarrow>
                map_of (patients (fst (run clock100 (twoPatients, 4) (?cs @ [CallUpdate p])))) ''HN000001'' =
                  Some (b\<lparr>FullName := FullName p, Gender := Gender p,
                          Nickname := Nickname p, Phone := Phone p, Age := Age p,
                          DateOfBirth := DateOfBirth p, Photo := Photo p,
                          UpdatedAt := clock100 (snd (run clock100 (twoPatients, 4) ?cs))\<rparr>)"
    and cre: "\<forall>q. map_of (patients (fst (run clock100 (twoPatients, 4) ?cs))) (HN q) = None \<longrightarrow>
                map_of (patients (fst (run clock100 (twoPatients, 4) (?cs @ [CallCreate q])))) (HN q) =
                  Some (q\<lparr>CreatedAt := clock100 (snd (run clock100 (twoPatients, 4) ?cs)),
                          UpdatedAt := clock100 (snd (run clock100 (twoPatients, 4) ?cs) + 1)\<rparr>)"
    by blast
  from b e1 have bB: "b = ?B" by simp
  from upd h6 have "map_of (patients (fst (run clock100 (twoPatients, 4) (?cs @ [CallUpdate ?p])))) ''HN000001'' =
                  Some (b\<lparr>FullName := FullName ?p, Gender := Gender ?p,
                          Nickname := Nickname ?p, Phone := Phone ?p, Age := Age ?p,
                          DateOfBirth := DateOfBirth ?p, Photo := Photo ?p,
                          UpdatedAt := clock100 (snd (run clock100 (twoPatients, 4) ?cs))\<rparr>)"
    by blast
  then have c1: "map_of (patients (fst (run clock100 (twoPatients, 4) (?cs @ [CallUpdate ?p])))) ''HN000001''
       = Some (somchai\<lparr>HN := ''HN000001'', Age := 37, CreatedAt := 100, UpdatedAt := 107\<rparr>)"
    unfolding bB e2 by (simp add: somchai_def)
  from cre h7 have "map_of (patients (fst (run clock100 (twoPatients, 4) (?cs @ [CallCreate ?q])))) (HN ?q) =
                  Some (?q\<lparr>CreatedAt := clock100 (snd (run clock100 (twoPatients, 4) ?cs)),
                          UpdatedAt := clock100 (snd (run clock100 (twoPatients, 4) ?cs) + 1)\<rparr>)"
    by blast
  then have c2: "map_of (patients (fst (run clock100 (twoPatients, 4) (?cs @ [CallCreate ?q])))) (HN ?q)
       = Some (somchai\<lparr>HN := ''HN000009'', CreatedAt := 107, UpdatedAt := 108\<rparr>)"
    unfolding e2 .
  show ?thesis by (intro conjI h1 h2 h3 h4 h5 e1 h6 c1 h7 c2)
qed

text \<open>
  C5, as it stands in the description: a create request that carries the hospital number
  \<open>HN1\<close> is stored under the normalised number \<open>HN000001\<close> and a get addressed by
  \<open>HN000001\<close> returns it. The repository stores the record under \<open>HN1\<close> as given, and
  the get at the id 1, which addresses \<open>HN000001\<close>, finds nothing.
\<close>

theorem Create_keeps_HN1_counterexample:
  "fst (Create emptyRepository somchai 1 2) = Inr (somchai\<lparr>CreatedAt := 1, UpdatedAt := 2\<rparr>)
   \<and> HN (somchai\<lparr>CreatedAt := 1, UpdatedAt := 2\<rparr>) = ''HN1''
   \<and> map_of (patients (snd (Create emptyRepository somchai 1 2))) ''HN1''
       = Some (somchai\<lparr>CreatedAt := 1, UpdatedAt := 2\<rparr>)
   \<and> map_of (patients (snd (Create emptyRepository somchai 1 2))) ''HN000001'' = None
   \<and> hnString 1 = ''HN000001''
   \<and> GetByID (snd (Create emptyRepository somchai 1 2)) 1 = Inl (NotFound ''HN000001'')"
  by code_simp

text \<open>
  C5, amended: \<open>Create\<close> of a record whose hospital number is not yet a key succeeds and
  stores the record under the number as given, without normalising it; when the number
  given is the one that \<open>addLeadingZeros\<close> of the form makes of \<open>HN1\<close>, that is
  \<open>HN000001\<close>, a subsequent get addressed by \<open>HN000001\<close> (the id 1) returns that same
  record.
\<close>

theorem Create_stores_given_hn:
  assumes fresh: "map_of (patients r) (HN p) = None"
  shows "let p' = p\<lparr>CreatedAt := now1, UpdatedAt := now2\<rparr>;
             r' = snd (Create r p now1 now2)
         in fst (Create r p now1 now2) = Inr p' \<and> HN p' = HN p \<and>
            map_of (patients r') (HN p) = Some p' \<and>
            (HN p = addLeadingZeros ''HN1'' \<longrightarrow>
               HN p' = ''HN000001'' \<and> GetByID r' 1 = Inr p')"
proof -
  let ?p = "p\<lparr>CreatedAt := now1, UpdatedAt := now2\<rparr>"
  let ?r = "r\<lparr>patients := AList.update (HN p) ?p (patients r)\<rparr>"
  have c: "Create r p now1 now2 = (Inr ?p, ?r)" using fresh by (rule Create_absent)
  have look: "map_of (patients ?r) (HN p) = Some ?p" by (simp add: map_of_AList_update)
  have pad: "addLeadingZeros ''HN1'' = ''HN000001''" by code_simp
  have one: "hnString 1 = ''HN000001''" by code_simp
  have "GetByID ?r 1 = Inr ?p" if "HN p = ''HN000001''"
    using look that by (simp add: GetByID_lookup one)
  then show ?thesis using look by (simp add: c Let_def pad)
qed

text \<open>
  The request of the example with its number padded by the form.
\<close>

theorem Create_stores_given_hn_witness:
  "map_of (patients emptyRepository) (HN (somchai\<lparr>HN := addLeadingZeros ''HN1''\<rparr>)) = None
   \<and> HN (somchai\<lparr>HN := addLeadingZeros ''HN1''\<rparr>) = addLeadingZeros ''HN1''
   \<and> GetByID (snd (Create emptyRepository (somchai\<lparr>HN := addLeadingZeros ''HN1''\<rparr>) 1 2)) 1
       = Inr (somchai\<lparr>HN := addLeadingZeros ''HN1'', CreatedAt := 1, UpdatedAt := 2\<rparr>)"
proof -
  let ?p = "somchai\<lparr>HN := addLeadingZeros ''HN1''\<rparr>"
  have h1: "map_of (patients emptyRepository) (HN ?p) = None" by code_simp
  have h2: "HN ?p = addLeadingZeros ''HN1''" by simp
  note t = Create_stores_given_hn[OF h1, where ?now1.0 = 1 and ?now2.0 = 2, unfolded Let_def]
  from t have "HN ?p = addLeadingZeros ''HN1'' \<longrightarrow>
      HN (?p\<lparr>CreatedAt := 1, UpdatedAt := 2\<rparr>) = ''HN000001'' \<and>
      GetByID (snd (Create emptyRepository ?p 1 2)) 1 = Inr (?p\<lparr>CreatedAt := 1, UpdatedAt := 2\<rparr>)"
    by (elim conjE)
  with h2 have g: "GetByID (snd (Create emptyRepository ?p 1 2)) 1
      = Inr (?p\<lparr>CreatedAt := 1, UpdatedAt := 2\<rparr>)"
    by (elim impE conjE)
  show ?thesis by (intro conjI h1 h2 g)
qed

text \<open>
  \<open>HN1234567\<close> has seven digits, so it is not canonical; it is what \<open>Sprintf\<close> writes
  for the id 1234567.
\<close>

lemma hnString_1234567: "hnString 1234567 = ''HN1234567''"
  by (simp add: hnString_def sprintf_06d_def padStart_def decimal.simps digitChar_values)

lemma not_canonical: "\<not> hnPattern ''HN1234567''"
  by (simp add: hnPattern_def)

text \<open>
  C10, as it stands: a record created under a hospital number that is not canonical is
  never returned by \<open>GetByID\<close> and never removed by \<open>Delete\<close>, for any id. The record
  created under \<open>HN1234567\<close> is returned by \<open>GetByID\<close> and removed by \<open>Delete\<close> at the
  id 1234567.
\<close>

theorem long_hn_is_addressed_counterexample:
  "\<not> hnPattern ''HN1234567''
   \<and> hnString 1234567 = ''HN1234567''
   \<and> GetByID (snd (Create emptyRepository (somchai\<lparr>HN := ''HN1234567''\<rparr>) 1 2)) 1234567
       = Inr (somchai\<lparr>HN := ''HN1234567'', CreatedAt := 1, UpdatedAt := 2\<rparr>)
   \<and> Delete (snd (Create emptyRepository (somchai\<lparr>HN := ''HN1234567''\<rparr>) 1 2)) 1234567
       = (Inr (), emptyRepository)"
proof -
  let ?p = "somchai\<lparr>HN := ''HN1234567''\<rparr>"
  have c: "snd (Create emptyRepository ?p 1 2)
           = \<lparr>patients = [(''HN1234567'', ?p\<lparr>CreatedAt := 1, UpdatedAt := 2\<rparr>)]\<rparr>"
    by code_simp
  have g: "GetByID (snd (Create emptyRepository ?p 1 2)) 1234567
       = Inr (?p\<lparr>CreatedAt := 1, UpdatedAt := 2\<rparr>)"
    unfolding c by (simp add: GetByID_lookup hnString_1234567)
  have d: "Delete (snd (Create emptyRepository ?p 1 2)) 1234567 = (Inr (), emptyRepository)"
    unfolding c by (simp add: Delete_def hnString_1234567 emptyRepository_def)
  show ?thesis using not_canonical hnString_1234567 g d by (intro conjI)
qed

text \<open>
  C10, amended: for every id \<open>i\<close>, \<open>GetByID\<close> and \<open>Delete\<close> address exactly the key
  that \<open>Sprintf("HN%06d", i)\<close> writes, which has at least 8 characters and, for
  \<open>0 \<le> i < 1000000\<close>, is the canonical number of \<open>i\<close>. \<open>Create\<close> stores the number as
  given; so a record created under a number that \<open>Sprintf\<close> writes for no id (every
  number of fewer than 8 characters, for example \<open>HN1\<close>) is stored, and for every id
  \<open>GetByID\<close> and \<open>Delete\<close> answer as they did before the creation ("not found" where
  the addressed key is absent), \<open>GetByID\<close> never returns that record and \<open>Delete\<close>
  never removes it.
\<close>

theorem unaddressed_hn:
  "GetByID r i =
     (case map_of (patients r) (hnString i) of
        None \<Rightarrow> Inl (NotFound (hnString i)) | Some q \<Rightarrow> Inr q)
   \<and> Delete r i =
     (case map_of (patients r) (hnString i) of
        None \<Rightarrow> (Inl (NotFound (hnString i)), r)
      | Some q \<Rightarrow> (Inr (), r\<lparr>patients := AList.delete (hnString i) (patients r)\<rparr>))
   \<and> hnString i = ''HN'' @ sprintf_06d i \<and> 8 \<le> length (hnString i)
   \<and> (0 \<le> i \<and> i < 1000000 \<longrightarrow> hnPattern (hnString i) \<and> toSurrogate (hnString i) = i)
   \<and> ((\<forall>j. hnString j \<noteq> HN p) \<and> map_of (patients r) (HN p) = None \<and> keys_ok r \<longrightarrow>
        (let p' = p\<lparr>CreatedAt := now1, UpdatedAt := now2\<rparr>;
             r' = snd (Create r p now1 now2)
         in map_of (patients r') (HN p) = Some p' \<and>
            GetByID r' i = GetByID r i \<and>
            (\<forall>q. GetByID r' i = Inr q \<longrightarrow> HN q \<noteq> HN p) \<and>
            fst (Delete r' i) = fst (Delete r i) \<and>
            map_of (patients (snd (Delete r' i))) (HN p) = Some p'))"
proof -
  have del: "Delete r i =
     (case map_of (patients r) (hnString i) of
        None \<Rightarrow> (Inl (NotFound (hnString i)), r)
      | Some q \<Rightarrow> (Inr (), r\<lparr>patients := AList.delete (hnString i) (patients r)\<rparr>))"
    by (simp add: Delete_def Let_def)
  have canon: "hnPattern (hnString i) \<and> toSurrogate (hnString i) = i" if "0 \<le> i \<and> i < 1000000"
    using that hnString_canonical[of i] by simp
  let ?p = "p\<lparr>CreatedAt := now1, UpdatedAt := now2\<rparr>"
  let ?r = "r\<lparr>patients := AList.update (HN p) ?p (patients r)\<rparr>"
  have hidden: "map_of (patients ?r) (HN p) = Some ?p \<and>
            GetByID ?r i = GetByID r i \<and>
            (\<forall>q. GetByID ?r i = Inr q \<longrightarrow> HN q \<noteq> HN p) \<and>
            fst (Delete ?r i) = fst (Delete r i) \<and>
            map_of (patients (snd (Delete ?r i))) (HN p) = Some ?p"
    if out: "\<forall>j. hnString j \<noteq> HN p" and keys: "keys_ok r"
  proof -
    from out have ne: "hnString i \<noteq> HN p" by simp
    have look: "map_of (patients ?r) (HN p) = Some ?p" by (simp add: map_of_AList_update)
    have same: "map_of (patients ?r) (hnString i) = map_of (patients r) (hnString i)"
      using ne by (simp add: map_of_AList_update)
    have get: "GetByID ?r i = GetByID r i" unfolding GetByID_lookup same ..
    have other: "HN q \<noteq> HN p" if "GetByID ?r i = Inr q" for q
    proof -
      from that have "GetByID r i = Inr q" by (simp only: get)
      then have "map_of (patients r) (hnString i) = Some q"
        by (simp add: GetByID_lookup split: option.splits)
      with keys have "HN q = hnString i" by (rule keys_ok_lookup)
      with ne show ?thesis by simp
    qed
    have "fst (Delete ?r i) = fst (Delete r i) \<and>
          map_of (patients (snd (Delete ?r i))) (HN p) = Some ?p"
    proof (cases "map_of (patients r) (hnString i)")
      case None
      then have "map_of (patients ?r) (hnString i) = None" using same by simp
        then have "Delete ?r i = (Inl (NotFound (hnString i)), ?r)" by (rule Delete_absent)
      then show ?thesis using look None by (simp add: Delete_absent)
    next
      case (Some e)
      then have "map_of (patients ?r) (hnString i) = Some e" using same by simp
      then have "Delete ?r i =
          (Inr (), ?r\<lparr>patients := AList.delete (hnString i) (patients ?r)\<rparr>)"
        by (rule Delete_present)
      then show ?thesis
        using ne Some by (simp add: Delete_present map_of_AList_delete map_of_AList_update)
    qed
    with look get other show ?thesis by blast
  qed
  have "(\<forall>j. hnString j \<noteq> HN p) \<and> map_of (patients r) (HN p) = None \<and> keys_ok r \<longrightarrow>
        (let p' = p\<lparr>CreatedAt := now1, UpdatedAt := now2\<rparr>;
             r' = snd (Create r p now1 now2)
         in map_of (patients r') (HN p) = Some p' \<and>
            GetByID r' i = GetByID r i \<and>
            (\<forall>q. GetByID r' i = Inr q \<longrightarrow> HN q \<noteq> HN p) \<and>
            fst (Delete r' i) = fst (Delete r i) \<and>
            map_of (patients (snd (Delete r' i))) (HN p) = Some p')"
  proof (intro impI, elim conjE)
    assume out: "\<forall>j. hnString j \<noteq> HN p" and fresh: "map_of (patients r) (HN p) = None"
      and keys: "keys_ok r"
    have c: "snd (Create r p now1 now2) = ?r" by (simp add: Create_absent[OF fresh])
    show "let p' = p\<lparr>CreatedAt := now1, UpdatedAt := now2\<rparr>;
             r' = snd (Create r p now1 now2)
         in map_of (patients r') (HN p) = Some p' \<and>
            GetByID r' i = GetByID r i \<and>
            (\<forall>q. GetByID r' i = Inr q \<longrightarrow> HN q \<noteq> HN p) \<and>
            fst (Delete r' i) = fst (Delete r i) \<and>
            map_of (patients (snd (Delete r' i))) (HN p) = Some p'"
      unfolding Let_def c using hidden[OF out keys] .
  qed
  note hid = this
  show ?thesis
  proof (intro conjI)
    show "GetByID r i =
       (case map_of (patients r) (hnString i) of
          None \<Rightarrow> Inl (NotFound (hnString i)) | Some q \<Rightarrow> Inr q)"
      by (rule GetByID_lookup)
    show "Delete r i =
       (case map_of (patients r) (hnString i) of
          None \<Rightarrow> (Inl (NotFound (hnString i)), r)
        | Some q \<Rightarrow> (Inr (), r\<lparr>patients := AList.delete (hnString i) (patients r)\<rparr>))"
      by (rule del)
    show "hnString i = ''HN'' @ sprintf_06d i" by (simp add: hnString_def)
    show "8 \<le> length (hnString i)" by (rule length_hnString)
    show "0 \<le> i \<and> i < 1000000 \<longrightarrow> hnPattern (hnString i) \<and> toSurrogate (hnString i) = i"
      using canon by (rule impI)
  qed (rule hid)
qed

text \<open>
  The record \<open>HN1\<close> created beside \<open>HN000001\<close> and \<open>HN000002\<close>, and the id 1.
\<close>

theorem unaddressed_hn_witness:
  "(\<forall>j. hnString j \<noteq> HN somchai)
   \<and> map_of (patients twoPatients) (HN somchai) = None
   \<and> keys_ok twoPatients
   \<and> (let p' = somchai\<lparr>CreatedAt := 5, UpdatedAt := 6\<rparr>;
           r' = snd (Create twoPatients somchai 5 6)
       in map_of (patients r') (HN somchai) = Some p' \<and>
          GetByID r' 1 = GetByID twoPatients 1 \<and>
          (\<forall>q. GetByID r' 1 = Inr q \<longrightarrow> HN q \<noteq> HN somchai) \<and>
          fst (Delete r' 1) = fst (Delete twoPatients 1) \<and>
          map_of (patients (snd (Delete r' 1))) (HN somchai) = Some p')
   \<and> GetByID (snd (Create twoPatients somchai 5 6)) 1
       = Inr (somchai\<lparr>HN := ''HN000001'', CreatedAt := 100, UpdatedAt := 101\<rparr>)
   \<and> HN (somchai\<lparr>HN := ''HN000001'', CreatedAt := 100, UpdatedAt := 101\<rparr>) \<noteq> HN somchai
   \<and> (0 \<le> (1::int) \<and> (1::int) < 1000000)
   \<and> (hnPattern (hnString 1) \<and> toSurrogate (hnString 1) = 1)"
proof -
  note t = unaddressed_hn[where r = twoPatients and p = somchai and ?now1.0 = 5
      and ?now2.0 = 6]
  have short: "length (HN somchai) = 3" by (simp add: somchai_def)
  have h1: "\<forall>j. hnString j \<noteq> HN somchai"
  proof
    fix j
    from t[where i = j] have "8 \<le> length (hnString j)" by (elim conjE)
    with short show "hnString j \<noteq> HN somchai" by auto
  qed
  have h2: "map_of (patients twoPatients) (HN somchai) = None" by code_simp
  have h3: "keys_ok twoPatients" by code_simp
  have h4: "0 \<le> (1::int) \<and> (1::int) < 1000000" by simp
  from t[where i = 1] have
    "(\<forall>j. hnString j \<noteq> HN somchai) \<and> map_of (patients twoPatients) (HN somchai) = None \<and>
       keys_ok twoPatients \<longrightarrow>
     (let p' = somchai\<lparr>CreatedAt := 5, UpdatedAt := 6\<rparr>;
           r' = snd (Create twoPatients somchai 5 6)
       in map_of (patients r') (HN somchai) = Some p' \<and>
          GetByID r' 1 = GetByID twoPatients 1 \<and>
          (\<forall>q. GetByID r' 1 = Inr q \<longrightarrow> HN q \<noteq> HN somchai) \<and>
          fst (Delete r' 1) = fst (Delete twoPatients 1) \<and>
          map_of (patients (snd (Delete r' 1))) (HN somchai) = Some p')"
    by (elim conjE)
  then have c1: "let p' = somchai\<lparr>CreatedAt := 5, UpdatedAt := 6\<rparr>;
           r' = snd (Create twoPatients somchai 5 6)
       in map_of (patients r') (HN somchai) = Some p' \<and>
          GetByID r' 1 = GetByID twoPatients 1 \<and>
          (\<forall>q. GetByID r' 1 = Inr q \<longrightarrow> HN q \<noteq> HN somchai) \<and>
          fst (Delete r' 1) = fst (Delete twoPatients 1) \<and>
          map_of (patients (snd (Delete r' 1))) (HN somchai) = Some p'"
    using h1 h2 h3 by (elim impE) (intro conjI)
  from t[where i = 1] have
    "0 \<le> (1::int) \<and> (1::int) < 1000000 \<longrightarrow> hnPattern (hnString 1) \<and> toSurrogate (hnString 1) = 1"
    by (elim conjE)
  with h4 have c2: "hnPattern (hnString 1) \<and> toSurrogate (hnString 1) = 1"
    by (elim impE)
  have h5: "GetByID (snd (Create twoPatients somchai 5 6)) 1
       = Inr (somchai\<lparr>HN := ''HN000001'', CreatedAt := 100, UpdatedAt := 101\<rparr>)"
    by code_simp
  from c1 have "\<forall>q. GetByID (snd (Create twoPatients somchai 5 6)) 1 = Inr q \<longrightarrow>
                  HN q \<noteq> HN somchai"
    unfolding Let_def by (elim conjE)
  with h5 have c3:
    "HN (somchai\<lparr>HN := ''HN000001'', CreatedAt := 100, UpdatedAt := 101\<rparr>) \<noteq> HN somchai"
    by blast
  show ?thesis by (intro conjI h1 h2 h3 c1 h5 c3 h4 c2)
qed

end
